theory Spec2Isabelle
  imports Main
begin

section \<open>Python values and built-ins used by the verifier\<close>

text \<open>
  The verifier (\<^verbatim>\<open>payments/evm_verify.py\<close>, \<^verbatim>\<open>payments/base_token.py\<close>) reads
  decoded JSON. A member of a transaction or receipt object is any JSON value; the code
  observes of it only its truth value, its equality with a string, its \<^verbatim>\<open>str()\<close> text,
  and what \<^verbatim>\<open>int(_, 16)\<close> and \<^verbatim>\<open>Web3.to_checksum_address\<close> make of it. Strings,
  integers, booleans and \<^verbatim>\<open>None\<close> are modelled as such; a float, list or nested object
  is \<open>POther t s\<close>, carrying its truth value \<open>t\<close> and its \<^verbatim>\<open>str()\<close> text \<open>s\<close>
  (every other operation of the code raises on it).
  Strings are lists of \<open>char\<close>, a \<open>char\<close> standing for the code point of the same
  number (ASCII and Latin-1).
\<close>

datatype pyval = PNone | PBool bool | PInt int | PStr string | POther bool string

datatype exn = ValueError | TypeError | AttributeError

fun truthy :: "pyval \<Rightarrow> bool" where
  "truthy PNone = False"
| "truthy (PBool b) = b"
| "truthy (PInt n) = (n \<noteq> 0)"
| "truthy (PStr s) = (s \<noteq> [])"
| "truthy (POther t s) = t"

definition digit_char :: "nat \<Rightarrow> char" where
  "digit_char d = ''0123456789abcdef'' ! d"

fun show_nat :: "nat \<Rightarrow> string" where
  "show_nat n = (if n < 10 then [digit_char n] else show_nat (n div 10) @ [digit_char (n mod 10)])"

declare show_nat.simps [simp del]

definition digits :: "int \<Rightarrow> string" where
  \<comment> \<open>the decimal digits of an integer, after its sign\<close>
  "digits n = (if n < 0 then CHR ''-'' # show_nat (nat (- n)) else show_nat (nat n))"

definition int_max_str_digits :: nat where
  \<comment> \<open>\<^verbatim>\<open>sys.int_info.default_max_str_digits\<close>; the repository does not change it\<close>
  "int_max_str_digits = 4300"

definition printable :: "int \<Rightarrow> bool" where
  \<comment> \<open>the digits, the sign not counted, are within the limit\<close>
  "printable n = (length (show_nat (nat \<bar>n\<bar>)) \<le> int_max_str_digits)"

definition str_int :: "int \<Rightarrow> exn + string" where
  \<comment> \<open>\<^verbatim>\<open>str(n)\<close> of an \<^verbatim>\<open>int\<close>, as an f-string takes it: a \<^verbatim>\<open>ValueError\<close> above
      the limit\<close>
  "str_int n = (if printable n then Inr (digits n) else Inl ValueError)"

fun hex_nat :: "nat \<Rightarrow> string" where
  "hex_nat n = (if n < 16 then [digit_char n] else hex_nat (n div 16) @ [digit_char (n mod 16)])"

declare hex_nat.simps [simp del]

definition py_hex :: "int \<Rightarrow> string" where
  \<comment> \<open>\<^verbatim>\<open>hex(n)\<close>\<close>
  "py_hex n = (if n < 0 then ''-0x'' @ hex_nat (nat (- n)) else ''0x'' @ hex_nat (nat n))"

fun loadable :: "pyval \<Rightarrow> bool" where
  \<comment> \<open>what \<^verbatim>\<open>json.loads\<close> can have produced: it raises on an integer literal above the
      limit, so a decoded integer is printable\<close>
  "loadable (PInt n) = printable n"
| "loadable v = True"

fun py_str :: "pyval \<Rightarrow> string" where
  \<comment> \<open>the text an f-string puts for \<^verbatim>\<open>{v}\<close>, \<open>v\<close> a member of a decoded object
      (\<open>loadable\<close>, so that \<^verbatim>\<open>str\<close> of an integer member does not raise)\<close>
  "py_str PNone = ''None''"
| "py_str (PBool b) = (if b then ''True'' else ''False'')"
| "py_str (PInt n) = digits n"
| "py_str (PStr s) = s"
| "py_str (POther t s) = s"

definition latin_upper :: string where
  "latin_upper =
     [CHR 0xC0, CHR 0xC1, CHR 0xC2, CHR 0xC3, CHR 0xC4, CHR 0xC5, CHR 0xC6, CHR 0xC7,
      CHR 0xC8, CHR 0xC9, CHR 0xCA, CHR 0xCB, CHR 0xCC, CHR 0xCD, CHR 0xCE, CHR 0xCF,
      CHR 0xD0, CHR 0xD1, CHR 0xD2, CHR 0xD3, CHR 0xD4, CHR 0xD5, CHR 0xD6,
      CHR 0xD8, CHR 0xD9, CHR 0xDA, CHR 0xDB, CHR 0xDC, CHR 0xDD, CHR 0xDE]"

definition latin_lower :: string where
  "latin_lower =
     [CHR 0xE0, CHR 0xE1, CHR 0xE2, CHR 0xE3, CHR 0xE4, CHR 0xE5, CHR 0xE6, CHR 0xE7,
      CHR 0xE8, CHR 0xE9, CHR 0xEA, CHR 0xEB, CHR 0xEC, CHR 0xED, CHR 0xEE, CHR 0xEF,
      CHR 0xF0, CHR 0xF1, CHR 0xF2, CHR 0xF3, CHR 0xF4, CHR 0xF5, CHR 0xF6,
      CHR 0xF8, CHR 0xF9, CHR 0xFA, CHR 0xFB, CHR 0xFC, CHR 0xFD, CHR 0xFE]"

definition lower_char :: "char \<Rightarrow> char" where
  \<comment> \<open>the letters \<^verbatim>\<open>str.lower\<close> changes below code point 256\<close>
  "lower_char c =
     (case map_of (zip (''ABCDEFGHIJKLMNOPQRSTUVWXYZ'' @ latin_upper)
                       (''abcdefghijklmnopqrstuvwxyz'' @ latin_lower)) c of
        None \<Rightarrow> c | Some d \<Rightarrow> d)"

definition upper_char :: "char \<Rightarrow> char" where
  \<comment> \<open>\<^verbatim>\<open>str.upper\<close> on ASCII; the code applies it to hex digits only\<close>
  "upper_char c =
     (case map_of (zip ''abcdefghijklmnopqrstuvwxyz'' ''ABCDEFGHIJKLMNOPQRSTUVWXYZ'') c of
        None \<Rightarrow> c | Some d \<Rightarrow> d)"

definition lower :: "string \<Rightarrow> string" where
  \<comment> \<open>\<^verbatim>\<open>s.lower()\<close>\<close>
  "lower s = map lower_char s"

fun starts_with :: "string \<Rightarrow> string \<Rightarrow> bool" where
  \<comment> \<open>\<open>starts_with p s\<close>: \<^verbatim>\<open>s.startswith(p)\<close>\<close>
  "starts_with [] s = True"
| "starts_with (p # ps) [] = False"
| "starts_with (p # ps) (c # cs) = (p = c \<and> starts_with ps cs)"

fun contains :: "string \<Rightarrow> string \<Rightarrow> bool" where
  \<comment> \<open>\<open>contains p s\<close>: \<^verbatim>\<open>p in s\<close>\<close>
  "contains p [] = (p = [])"
| "contains p (c # cs) = (starts_with p (c # cs) \<or> contains p cs)"

subsection \<open>\<^verbatim>\<open>int(s, 16)\<close>\<close>

definition is_space :: "char \<Rightarrow> bool" where
  \<comment> \<open>the white space \<^verbatim>\<open>int()\<close> skips at both ends: tab, line feed, vertical tab,
      form feed, carriage return and space, and of the code points above ASCII the
      spaces, which it first turns into a space (next line, no-break space)\<close>
  "is_space c =
     (c \<in> set [CHR 0x09, CHR 0x0A, CHR 0x0B, CHR 0x0C, CHR 0x0D, CHR 0x20, CHR 0x85, CHR 0xA0])"

definition hex_val :: "char \<Rightarrow> nat option" where
  "hex_val c =
     map_of (zip ''0123456789abcdefABCDEF''
                 [0, 1, 2, 3, 4, 5, 6, 7, 8, 9, 10, 11, 12, 13, 14, 15, 10, 11, 12, 13, 14, 15]) c"

definition strip :: "string \<Rightarrow> string" where
  "strip s = rev (dropWhile is_space (rev (dropWhile is_space s)))"

fun hex_digits :: "string \<Rightarrow> nat \<Rightarrow> bool \<Rightarrow> nat option" where
  \<comment> \<open>digits with single underscores between them; the flag says the previous character
      was an underscore\<close>
  "hex_digits [] acc us = (if us then None else Some acc)"
| "hex_digits (c # cs) acc us =
     (if c = CHR ''_'' then (if us then None else hex_digits cs acc True)
      else (case hex_val c of None \<Rightarrow> None | Some d \<Rightarrow> hex_digits cs (16 * acc + d) False))"

definition hex_body :: "string \<Rightarrow> nat option" where
  \<comment> \<open>after the sign: an optional \<^verbatim>\<open>0x\<close> prefix (one underscore may follow it), then
      at least one digit, the first character not an underscore\<close>
  "hex_body s =
     (let t = (if starts_with ''0x'' s \<or> starts_with ''0X'' s
               then (let r = drop 2 s in if starts_with ''_'' r then drop 1 r else r)
               else s)
      in if t = [] \<or> starts_with ''_'' t then None else hex_digits t 0 False)"

definition py_int16 :: "string \<Rightarrow> int option" where
  "py_int16 s =
     (let t = strip s in
      if starts_with ''-'' t then map_option (\<lambda>n. - int n) (hex_body (drop 1 t))
      else if starts_with ''+'' t then map_option int (hex_body (drop 1 t))
      else map_option int (hex_body t))"

definition int16 :: "pyval \<Rightarrow> exn + int" where
  \<comment> \<open>\<^verbatim>\<open>int(v, 16)\<close>: a non-string with an explicit base is a \<^verbatim>\<open>TypeError\<close>\<close>
  "int16 v =
     (case v of
        PStr s \<Rightarrow> (case py_int16 s of None \<Rightarrow> Inl ValueError | Some n \<Rightarrow> Inr n)
      | _ \<Rightarrow> Inl TypeError)"

section \<open>\<^verbatim>\<open>Web3.to_checksum_address\<close>\<close>

text \<open>
  The address normalisation is the library's (\<^verbatim>\<open>eth_utils\<close>, reached through
  \<^verbatim>\<open>web3\<close>), not this repository's. It is modelled here as the library computes it:
  the value is rendered as a lower-case hex string, must then be \<^verbatim>\<open>0x\<close> and forty hex
  digits, and each letter is put in upper case where the matching hex digit of the
  Keccak-256 digest of the forty digits is above seven. The digest and the text of the
  exception raised on a bad value are parameters of the model.
\<close>

record web3 =
  keccak_digit :: "string \<Rightarrow> nat \<Rightarrow> nat"
    \<comment> \<open>\<open>keccak_digit t i\<close>: the \<open>i\<close>-th hex digit of the digest of the text \<open>t\<close>\<close>
  error_text :: "pyval \<Rightarrow> string"
    \<comment> \<open>\<^verbatim>\<open>str(e)\<close> of the exception raised for a value\<close>

definition is_hex_digit :: "char \<Rightarrow> bool" where
  "is_hex_digit c = (c \<in> set ''0123456789abcdef'')"

definition is_hex_address :: "string \<Rightarrow> bool" where
  \<comment> \<open>a full match of \<^verbatim>\<open>(0x)?[0-9a-f]{40}\<close> on a lower-cased string\<close>
  "is_hex_address s =
     (let b = (if starts_with ''0x'' s then drop 2 s else s)
      in length b = 40 \<and> list_all is_hex_digit b)"

definition add_0x_prefix :: "string \<Rightarrow> string" where
  "add_0x_prefix s = (if starts_with ''0x'' s \<or> starts_with ''0X'' s then s else ''0x'' @ s)"

definition to_normalized_address :: "pyval \<Rightarrow> exn + string" where
  "to_normalized_address v =
     (case v of
        PStr s \<Rightarrow>
          (let h = lower (add_0x_prefix (lower s))
           in if is_hex_address h then Inr h else Inl ValueError)
      | PBool b \<Rightarrow> Inl ValueError
      | PInt n \<Rightarrow>
          (let h = lower (py_hex n)
           in if is_hex_address h then Inr h else Inl ValueError)
      | PNone \<Rightarrow> Inl TypeError
      | POther t s \<Rightarrow> Inl TypeError)"

fun apply_case :: "(nat \<Rightarrow> nat) \<Rightarrow> nat \<Rightarrow> string \<Rightarrow> string" where
  \<comment> \<open>\<^verbatim>\<open>c.upper() if int(address_hash[i], 16) > 7 else c\<close>, along the digits\<close>
  "apply_case h i [] = []"
| "apply_case h i (c # cs) = (if h i > 7 then upper_char c else c) # apply_case h (Suc i) cs"

definition to_checksum_address :: "web3 \<Rightarrow> pyval \<Rightarrow> exn + string" where
  "to_checksum_address lib v =
     (case to_normalized_address v of
        Inl e \<Rightarrow> Inl e
      | Inr a \<Rightarrow> Inr (''0x'' @ apply_case (keccak_digit lib (drop 2 a)) 0 (drop 2 a)))"

section \<open>Configuration (\<^verbatim>\<open>config.py\<close>)\<close>

definition CHAIN_ID :: int where
  "CHAIN_ID = 10143"

record config =
  PAYMENT_RECIPIENT_ADDRESS :: string
    \<comment> \<open>read from the environment, with a default\<close>

definition default_config :: config where
  "default_config = \<lparr>PAYMENT_RECIPIENT_ADDRESS = ''0x0000000000000000000000000000000000000001''\<rparr>"

section \<open>The node and the event loop\<close>

text \<open>
  What \<^verbatim>\<open>data.get("result")\<close> can be: \<^verbatim>\<open>None\<close>, an object (its members as an
  association list, read with \<open>map_of\<close>), or some other JSON value, of which the code
  only ever takes the truth value before calling \<^verbatim>\<open>.get\<close> on it.
\<close>

datatype jresult = Null | Obj "(string \<times> pyval) list" | NonObj bool

fun present :: "jresult \<Rightarrow> bool" where
  \<comment> \<open>the truth value: \<^verbatim>\<open>not tx\<close> is \<open>\<not> present tx\<close>\<close>
  "present Null = False"
| "present (Obj kvs) = (kvs \<noteq> [])"
| "present (NonObj t) = t"

datatype rpc_method = Eth_getTransactionByHash | Eth_getTransactionReceipt

fun decodes :: "jresult \<Rightarrow> bool" where
  \<comment> \<open>\<^verbatim>\<open>resp.json()\<close> returns: no member is an integer above the limit\<close>
  "decodes (Obj kvs) = list_all (\<lambda>kv. loadable (snd kv)) kvs"
| "decodes r = True"

declare decodes.simps [simp del]

datatype body = Not_json | Json jresult
  \<comment> \<open>\<open>Not_json\<close>: the body is no JSON object, so that \<^verbatim>\<open>resp.json()\<close> or
      \<^verbatim>\<open>data.get\<close> raises; \<open>Json r\<close>: a JSON object whose \<^verbatim>\<open>result\<close> member reads
      \<open>r\<close> (\<open>Null\<close> when it has none)\<close>

datatype http = Transport_error | Response nat body

text \<open>
  The environment: what the node answers to the \<open>k\<close>-th request this process posts, how
  long that request takes, and by how much the \<open>k\<close>-th sleep overruns. Time is the event
  loop's clock in milliseconds.
\<close>

record net =
  respond :: "nat \<Rightarrow> rpc_method \<Rightarrow> string \<Rightarrow> http"
  latency :: "nat \<Rightarrow> nat"
  oversleep :: "nat \<Rightarrow> nat"

record world =
  clock :: nat
  requests :: "(rpc_method \<times> string) list"
  sleeps :: "nat list"

definition post :: "net \<Rightarrow> rpc_method \<Rightarrow> string \<Rightarrow> world \<Rightarrow> http \<times> world" where
  "post n m h w =
     (let k = length (requests w)
      in (respond n k m h,
          w\<lparr>clock := clock w + latency n k, requests := requests w @ [(m, h)]\<rparr>))"

definition sleep :: "net \<Rightarrow> nat \<Rightarrow> world \<Rightarrow> world" where
  \<comment> \<open>\<^verbatim>\<open>await asyncio.sleep(s)\<close>\<close>
  "sleep n s w =
     w\<lparr>clock := clock w + 1000 * s + oversleep n (length (sleeps w)), sleeps := sleeps w @ [s]\<rparr>"

definition result_of :: "http \<Rightarrow> jresult" where
  \<comment> \<open>lines 39--45 and 72--78: anything but a 200 response that decodes is \<^verbatim>\<open>None\<close>\<close>
  "result_of r =
     (case r of
        Transport_error \<Rightarrow> Null
      | Response st b \<Rightarrow>
          (if st = 200
           then (case b of Not_json \<Rightarrow> Null | Json j \<Rightarrow> if decodes j then j else Null)
           else Null))"

definition get_transaction :: "net \<Rightarrow> string \<Rightarrow> world \<Rightarrow> jresult \<times> world" where
  "get_transaction n tx_hash w =
     (case post n Eth_getTransactionByHash tx_hash w of (r, w') \<Rightarrow> (result_of r, w'))"

definition get_transaction_receipt :: "net \<Rightarrow> string \<Rightarrow> world \<Rightarrow> jresult \<times> world" where
  "get_transaction_receipt n tx_hash w =
     (case post n Eth_getTransactionReceipt tx_hash w of (r, w') \<Rightarrow> (result_of r, w'))"

section \<open>The acceptance rule (\<^verbatim>\<open>evm_verify.verify_mon_payment\<close>)\<close>

definition dict_get :: "(string \<times> pyval) list \<Rightarrow> string \<Rightarrow> pyval \<Rightarrow> pyval" where
  \<comment> \<open>\<^verbatim>\<open>d.get(k, default)\<close>\<close>
  "dict_get d k dflt = (case map_of d k of None \<Rightarrow> dflt | Some v \<Rightarrow> v)"

type_synonym outcome = "exn + bool \<times> string option"
  \<comment> \<open>\<open>Inl e\<close>: the call raised \<open>e\<close>; \<open>Inr (ok, message)\<close>: the tuple it returned\<close>

definition normalize_addresses :: "web3 \<Rightarrow> config \<Rightarrow> string \<Rightarrow> string + string \<times> string" where
  \<comment> \<open>lines 100--104: \<open>Inl\<close> the message of the caught exception, else the two
      checksummed addresses\<close>
  "normalize_addresses lib cfg expected_sender =
     (case to_checksum_address lib (PStr expected_sender) of
        Inl e \<Rightarrow> Inl (''Invalid address format: '' @ error_text lib (PStr expected_sender))
      | Inr sender \<Rightarrow>
          (case to_checksum_address lib (PStr (PAYMENT_RECIPIENT_ADDRESS cfg)) of
             Inl e \<Rightarrow>
               Inl (''Invalid address format: ''
                    @ error_text lib (PStr (PAYMENT_RECIPIENT_ADDRESS cfg)))
           | Inr recipient \<Rightarrow> Inr (sender, recipient)))"

definition fstring2 :: "string \<Rightarrow> int \<Rightarrow> string \<Rightarrow> int \<Rightarrow> outcome" where
  \<comment> \<open>\<^verbatim>\<open>return False, f"<p>{a}<q>{b}"\<close>: the two integers are printed in turn, and a
      \<^verbatim>\<open>ValueError\<close> of either leaves the function\<close>
  "fstring2 p a q b =
     (case str_int a of
        Inl e \<Rightarrow> Inl e
      | Inr ta \<Rightarrow>
          (case str_int b of
             Inl e \<Rightarrow> Inl e
           | Inr tb \<Rightarrow> Inr (False, Some (p @ ta @ q @ tb))))"

definition check_chain :: "(string \<times> pyval) list \<Rightarrow> outcome" where
  \<comment> \<open>lines 142--149\<close>
  "check_chain tx =
     (let tx_chain_id = dict_get tx ''chainId'' PNone in
      if truthy tx_chain_id then
        (case int16 tx_chain_id of
           Inl e \<Rightarrow> Inl e
         | Inr tx_chain_id_int \<Rightarrow>
             if tx_chain_id_int \<noteq> CHAIN_ID
             then fstring2 ''Wrong chain: expected '' CHAIN_ID '', got '' tx_chain_id_int
             else Inr (True, None))
      else Inr (True, None))"

definition check_value :: "int \<Rightarrow> (string \<times> pyval) list \<Rightarrow> outcome" where
  \<comment> \<open>lines 137--149\<close>
  "check_value expected_amount_wei tx =
     (case int16 (dict_get tx ''value'' (PStr ''0x0'')) of
        Inl e \<Rightarrow> Inl e
      | Inr tx_value \<Rightarrow>
          if tx_value < expected_amount_wei
          then fstring2 ''Amount too low: expected '' expected_amount_wei '', got '' tx_value
          else check_chain tx)"

definition check_recipient :: "web3 \<Rightarrow> string \<Rightarrow> int \<Rightarrow> (string \<times> pyval) list \<Rightarrow> outcome" where
  \<comment> \<open>lines 128--149\<close>
  "check_recipient lib recipient expected_amount_wei tx =
     (let tx_to = dict_get tx ''to'' PNone in
      if truthy tx_to then
        (case to_checksum_address lib tx_to of
           Inl e \<Rightarrow> Inl e
         | Inr tx_to' \<Rightarrow>
             if tx_to' \<noteq> recipient
             then Inr (False, Some (''Recipient mismatch: expected '' @ recipient
                                    @ '', got '' @ tx_to'))
             else check_value expected_amount_wei tx)
      else Inr (False, Some ''Transaction has no recipient (contract creation?)''))"

definition check_sender ::
  "web3 \<Rightarrow> string \<Rightarrow> string \<Rightarrow> int \<Rightarrow> jresult \<Rightarrow> outcome" where
  \<comment> \<open>lines 123--149; \<^verbatim>\<open>tx.get\<close> on a value that is no object raises\<close>
  "check_sender lib expected_sender recipient expected_amount_wei tx =
     (case tx of
        Obj txd \<Rightarrow>
          (case to_checksum_address lib (dict_get txd ''from'' (PStr [])) of
             Inl e \<Rightarrow> Inl e
           | Inr tx_from \<Rightarrow>
               if tx_from \<noteq> expected_sender
               then Inr (False, Some (''Sender mismatch: expected '' @ expected_sender
                                      @ '', got '' @ tx_from))
               else check_recipient lib recipient expected_amount_wei txd)
      | _ \<Rightarrow> Inl AttributeError)"

definition check_status ::
  "web3 \<Rightarrow> string \<Rightarrow> string \<Rightarrow> string \<Rightarrow> int \<Rightarrow> jresult \<Rightarrow> jresult \<Rightarrow> outcome" where
  \<comment> \<open>lines 118--149; \<^verbatim>\<open>receipt.get\<close> on a value that is no object raises\<close>
  "check_status lib tx_hash expected_sender recipient expected_amount_wei tx receipt =
     (case receipt of
        Obj rd \<Rightarrow>
          (let status = dict_get rd ''status'' PNone in
           if status \<noteq> PStr ''0x1''
           then Inr (False, Some (''Transaction '' @ tx_hash @ '' failed (status: ''
                                  @ py_str status @ '')''))
           else check_sender lib expected_sender recipient expected_amount_wei tx)
      | _ \<Rightarrow> Inl AttributeError)"

definition verify_mon_payment ::
  "web3 \<Rightarrow> config \<Rightarrow> net \<Rightarrow> string \<Rightarrow> string \<Rightarrow> int \<Rightarrow> world \<Rightarrow> outcome \<times> world" where
  "verify_mon_payment lib cfg n tx_hash expected_sender expected_amount_wei w =
     (case normalize_addresses lib cfg expected_sender of
        Inl msg \<Rightarrow> (Inr (False, Some msg), w)
      | Inr (expected_sender', recipient) \<Rightarrow>
          (case get_transaction n tx_hash w of
             (tx, w1) \<Rightarrow>
               if \<not> present tx
               then (Inr (False, Some (''Transaction '' @ tx_hash @ '' not found on chain'')), w1)
               else
                 (case get_transaction_receipt n tx_hash w1 of
                    (receipt, w2) \<Rightarrow>
                      if \<not> present receipt
                      then (Inr (False, Some (''Transaction '' @ tx_hash
                                              @ '' pending or not yet mined'')), w2)
                      else (check_status lib tx_hash expected_sender' recipient
                              expected_amount_wei tx receipt, w2))))"

section \<open>The one-shot entry point (\<^verbatim>\<open>evm_verify.verify_payment\<close>)\<close>

record verdict =
  verified :: bool
  tx_hash_of :: string
  error :: "string option"
  tx_info :: jresult

definition verify_payment ::
  "web3 \<Rightarrow> config \<Rightarrow> net \<Rightarrow> string \<Rightarrow> string \<Rightarrow> int \<Rightarrow> world \<Rightarrow> (exn + verdict) \<times> world" where
  "verify_payment lib cfg n tx_hash sender_address amount_wei w =
     (case verify_mon_payment lib cfg n tx_hash sender_address amount_wei w of
        (Inl e, w1) \<Rightarrow> (Inl e, w1)
      | (Inr (is_valid, err), w1) \<Rightarrow>
          if is_valid then
            (case get_transaction n tx_hash w1 of
               (tx, w2) \<Rightarrow>
                 (Inr \<lparr>verified = True, tx_hash_of = tx_hash, error = None, tx_info = tx\<rparr>, w2))
          else
            (Inr \<lparr>verified = False, tx_hash_of = tx_hash, error = err, tx_info = Null\<rparr>, w1))"

section \<open>The polling entry point (\<^verbatim>\<open>base_token.PaymentVerifier.verify_payment\<close>)\<close>

definition says_pending :: "string \<Rightarrow> bool" where
  \<comment> \<open>line 86: \<^verbatim>\<open>"pending" in error.lower() or "not yet mined" in error.lower()\<close>\<close>
  "says_pending e = (contains ''pending'' (lower e) \<or> contains ''not yet mined'' (lower e))"

text \<open>
  The \<^verbatim>\<open>while\<close> loop of lines 75--93, entered with the clock reading \<open>start_time\<close>.
  An error that is \<^verbatim>\<open>None\<close> or empty takes neither \<^verbatim>\<open>if\<close> and goes round again
  without sleeping.
\<close>

function poll ::
  "web3 \<Rightarrow> config \<Rightarrow> net \<Rightarrow> string \<Rightarrow> int \<Rightarrow> string \<Rightarrow> int \<Rightarrow> nat \<Rightarrow> world \<Rightarrow> outcome \<times> world" where
  "poll lib cfg n from_address expected_amount tx_hash timeout start_time w =
     (if int (clock w) - int start_time < 1000 * timeout then
        (case verify_mon_payment lib cfg n tx_hash from_address expected_amount w of
           (Inl e, w1) \<Rightarrow> (Inl e, w1)
         | (Inr (is_valid, err), w1) \<Rightarrow>
             if is_valid then (Inr (True, Some tx_hash), w1)
             else
               (case err of
                  None \<Rightarrow>
                    poll lib cfg n from_address expected_amount tx_hash timeout start_time w1
                | Some e \<Rightarrow>
                    if e \<noteq> [] \<and> says_pending e
                    then poll lib cfg n from_address expected_amount tx_hash timeout start_time
                           (sleep n 2 w1)
                    else if e \<noteq> [] then (Inr (False, None), w1)
                    else poll lib cfg n from_address expected_amount tx_hash timeout start_time w1))
      else (Inr (False, None), w))"
  by pat_completeness auto

definition PaymentVerifier_verify_payment ::
  "web3 \<Rightarrow> config \<Rightarrow> net \<Rightarrow> string \<Rightarrow> int \<Rightarrow> string option \<Rightarrow> int \<Rightarrow> world \<Rightarrow> outcome \<times> world" where
  "PaymentVerifier_verify_payment lib cfg n from_address expected_amount tx_hash timeout w =
     (case tx_hash of
        None \<Rightarrow> (Inr (False, None), w)
      | Some h \<Rightarrow>
          if h = [] then (Inr (False, None), w)
          else poll lib cfg n from_address expected_amount h timeout (clock w) w)"

text \<open>
  Where the loop stands after \<open>k\<close> rounds that each found the payment pending and slept:
  \<open>iteration \<dots> k w\<close> is the world at the head of the \<open>k\<close>-th further round when the
  loop, at the head of a round in world \<open>w\<close>, gets that far by the retry branch of
  lines 86--88 alone, and \<open>None\<close> when it leaves the loop earlier.
\<close>

fun iteration ::
  "web3 \<Rightarrow> config \<Rightarrow> net \<Rightarrow> string \<Rightarrow> int \<Rightarrow> string \<Rightarrow> int \<Rightarrow> nat \<Rightarrow> nat \<Rightarrow> world \<Rightarrow> world option" where
  "iteration lib cfg n from_address expected_amount tx_hash timeout start_time 0 w = Some w"
| "iteration lib cfg n from_address expected_amount tx_hash timeout start_time (Suc k) w =
     (if int (clock w) - int start_time < 1000 * timeout then
        (case verify_mon_payment lib cfg n tx_hash from_address expected_amount w of
           (Inr (False, Some e), w1) \<Rightarrow>
             if e \<noteq> [] \<and> says_pending e
             then iteration lib cfg n from_address expected_amount tx_hash timeout start_time k
                    (sleep n 2 w1)
             else None
         | _ \<Rightarrow> None)
      else None)"

section \<open>Concrete nodes and inputs\<close>

text \<open>
  Inputs at which the theorems below are exercised: a stand-in digest that puts every
  letter in upper case, a payer address, transaction records paying the default recipient,
  and nodes given by their answers.
\<close>

definition lib0 :: web3 where
  "lib0 = \<lparr>keccak_digit = (\<lambda>t i. 8), error_text = (\<lambda>v. ''Unknown format'')\<rparr>"

definition payer :: string where
  "payer = ''0x00000000000000000000000000000000000000aa''"

definition w0 :: world where
  "w0 = \<lparr>clock = 0, requests = [], sleeps = []\<rparr>"

definition transfer :: "string \<Rightarrow> (string \<times> pyval) list" where
  \<comment> \<open>a transfer of the given value from the payer to the default recipient, with no
      chain identifier\<close>
  "transfer v =
     [(''from'', PStr payer),
      (''to'', PStr (PAYMENT_RECIPIENT_ADDRESS default_config)),
      (''value'', PStr v)]"

definition with_chain :: "string \<Rightarrow> (string \<times> pyval) list \<Rightarrow> (string \<times> pyval) list" where
  "with_chain c tx = tx @ [(''chainId'', PStr c)]"

definition creation :: "string \<Rightarrow> (string \<times> pyval) list" where
  \<comment> \<open>a contract creation by the payer: no \<^verbatim>\<open>to\<close> member\<close>
  "creation v = [(''from'', PStr payer), (''value'', PStr v)]"

definition senderless :: "string \<Rightarrow> (string \<times> pyval) list" where
  \<comment> \<open>a record without its \<^verbatim>\<open>from\<close> member\<close>
  "senderless v =
     [(''to'', PStr (PAYMENT_RECIPIENT_ADDRESS default_config)), (''value'', PStr v)]"

definition payer_upper :: string where
  \<comment> \<open>the payer's address with its letters in upper case\<close>
  "payer_upper = ''0x00000000000000000000000000000000000000AA''"

definition receipt_ok :: "(string \<times> pyval) list" where
  "receipt_ok = [(''status'', PStr ''0x1'')]"

definition receipt_failed :: "(string \<times> pyval) list" where
  "receipt_failed = [(''status'', PStr ''0x0'')]"

definition receipt_no_status :: "(string \<times> pyval) list" where
  "receipt_no_status = [(''blockNumber'', PStr ''0x10'')]"

definition steady_node :: "jresult \<Rightarrow> jresult \<Rightarrow> net" where
  \<comment> \<open>answers every request for a transaction with \<open>tx\<close> and every request for a
      receipt with \<open>rc\<close>\<close>
  "steady_node tx rc =
     \<lparr>respond = (\<lambda>k m h. Response 200 (Json
          (case m of Eth_getTransactionByHash \<Rightarrow> tx | Eth_getTransactionReceipt \<Rightarrow> rc))),
      latency = (\<lambda>k. 0), oversleep = (\<lambda>k. 0)\<rparr>"

definition failing_after :: "nat \<Rightarrow> jresult \<Rightarrow> jresult \<Rightarrow> net" where
  \<comment> \<open>as \<open>steady_node\<close> for the first \<open>c\<close> requests; every later request fails in
      transport\<close>
  "failing_after c tx rc =
     \<lparr>respond = (\<lambda>k m h. if k < c then Response 200 (Json
          (case m of Eth_getTransactionByHash \<Rightarrow> tx | Eth_getTransactionReceipt \<Rightarrow> rc))
          else Transport_error),
      latency = (\<lambda>k. 0), oversleep = (\<lambda>k. 0)\<rparr>"

definition mined_after :: "nat \<Rightarrow> jresult \<Rightarrow> jresult \<Rightarrow> net" where
  \<comment> \<open>the transaction is known throughout; its receipt is there from request \<open>c\<close> on\<close>
  "mined_after c tx rc =
     \<lparr>respond = (\<lambda>k m h. Response 200 (Json
          (case m of Eth_getTransactionByHash \<Rightarrow> tx
           | Eth_getTransactionReceipt \<Rightarrow> if k < c then Null else rc))),
      latency = (\<lambda>k. 0), oversleep = (\<lambda>k. 0)\<rparr>"

section \<open>Termination of the polling loop\<close>

lemma post_clock: "post n m h w = (r, w') \<Longrightarrow> clock w \<le> clock w'"
  by (auto simp: post_def Let_def)

lemma get_transaction_clock: "get_transaction n h w = (r, w') \<Longrightarrow> clock w \<le> clock w'"
  by (auto simp: get_transaction_def split: prod.splits dest: post_clock)

lemma get_transaction_receipt_clock:
  "get_transaction_receipt n h w = (r, w') \<Longrightarrow> clock w \<le> clock w'"
  by (auto simp: get_transaction_receipt_def split: prod.splits dest: post_clock)

lemma verify_mon_payment_clock:
  assumes "verify_mon_payment lib cfg n h s a w = (r, w')"
  shows "clock w \<le> clock w'"
proof (cases "normalize_addresses lib cfg s")
  case (Inl msg)
  with assms show ?thesis by (simp add: verify_mon_payment_def)
next
  case (Inr p)
  obtain tx w1 where t: "get_transaction n h w = (tx, w1)" by fastforce
  obtain rc w2 where r: "get_transaction_receipt n h w1 = (rc, w2)" by fastforce
  have "clock w \<le> clock w1" "clock w1 \<le> clock w2"
    using t r get_transaction_clock get_transaction_receipt_clock by blast+
  moreover have "w' = w1 \<or> w' = w2"
    using assms Inr t r by (cases p) (auto simp: verify_mon_payment_def split: if_splits)
  ultimately show ?thesis by auto
qed

lemma fstring2_message:
  "fstring2 p a q b = Inr (False, err) \<Longrightarrow> p \<noteq> [] \<Longrightarrow> \<exists>e. err = Some e \<and> e \<noteq> []"
  by (auto simp: fstring2_def split: sum.splits)

lemma check_chain_message: "check_chain tx = Inr (False, err) \<Longrightarrow> \<exists>e. err = Some e \<and> e \<noteq> []"
  by (auto simp: check_chain_def Let_def split: if_splits sum.splits dest: fstring2_message)

lemma check_value_message:
  "check_value a tx = Inr (False, err) \<Longrightarrow> \<exists>e. err = Some e \<and> e \<noteq> []"
  by (auto simp: check_value_def split: if_splits sum.splits
           dest: check_chain_message fstring2_message)

lemma check_recipient_message:
  "check_recipient lib r a tx = Inr (False, err) \<Longrightarrow> \<exists>e. err = Some e \<and> e \<noteq> []"
  by (auto simp: check_recipient_def Let_def split: if_splits sum.splits dest: check_value_message)

lemma check_sender_message:
  "check_sender lib s r a tx = Inr (False, err) \<Longrightarrow> \<exists>e. err = Some e \<and> e \<noteq> []"
  by (auto simp: check_sender_def split: if_splits sum.splits jresult.splits
           dest: check_recipient_message)

lemma check_status_message:
  "check_status lib h s r a tx rc = Inr (False, err) \<Longrightarrow> \<exists>e. err = Some e \<and> e \<noteq> []"
  by (auto simp: check_status_def Let_def split: if_splits sum.splits jresult.splits
           dest: check_sender_message)

lemma normalize_addresses_message: "normalize_addresses lib cfg s = Inl msg \<Longrightarrow> msg \<noteq> []"
  by (auto simp: normalize_addresses_def split: sum.splits)

lemma verify_mon_payment_message:
  assumes "verify_mon_payment lib cfg n h s a w = (Inr (False, err), w')"
  shows "\<exists>e. err = Some e \<and> e \<noteq> []"
proof (cases "normalize_addresses lib cfg s")
  case (Inl msg)
  with assms show ?thesis
    by (auto simp: verify_mon_payment_def dest: normalize_addresses_message)
next
  case (Inr p)
  with assms show ?thesis
    by (cases p)
       (auto simp: verify_mon_payment_def split: prod.splits if_splits
             dest: check_status_message)
qed

termination poll
proof (relation "measure (\<lambda>(lib, cfg, n, fa, ea, h, timeout, start, w).
          nat (1000 * timeout - (int (clock w) - int start)))", goal_cases)
  case 1
  show ?case by simp
next
  case (2 lib cfg n fa ea h timeout start w r w1 b is_valid err)
  then have "verify_mon_payment lib cfg n h fa ea w = (Inr (False, None), w1)" by simp
  then show ?case using verify_mon_payment_message by fastforce
next
  case (3 lib cfg n fa ea h timeout start w r w1 b is_valid err e)
  then have "verify_mon_payment lib cfg n h fa ea w = (r, w1)" by simp
  then have "clock w \<le> clock w1" by (rule verify_mon_payment_clock)
  with 3 show ?case by (simp add: sleep_def)
next
  case (4 lib cfg n fa ea h timeout start w r w1 b is_valid err e)
  then have "verify_mon_payment lib cfg n h fa ea w = (Inr (False, Some []), w1)" by simp
  then show ?case using verify_mon_payment_message by fastforce
qed

declare poll.simps [simp del]

section \<open>The acceptance rule, clause by clause\<close>

lemma verify_mon_payment_invalid:
  "normalize_addresses lib cfg s = Inl msg \<Longrightarrow>
   verify_mon_payment lib cfg n h s a w = (Inr (False, Some msg), w)"
  by (simp add: verify_mon_payment_def)

lemma verify_mon_payment_not_found:
  assumes "normalize_addresses lib cfg s = Inr p"
    and "get_transaction n h w = (tx, w1)" and "\<not> present tx"
  shows "verify_mon_payment lib cfg n h s a w
         = (Inr (False, Some (''Transaction '' @ h @ '' not found on chain'')), w1)"
  using assms by (cases p) (simp add: verify_mon_payment_def)

lemma verify_mon_payment_pending:
  assumes "normalize_addresses lib cfg s = Inr p"
    and "get_transaction n h w = (tx, w1)" and "present tx"
    and "get_transaction_receipt n h w1 = (rc, w2)" and "\<not> present rc"
  shows "verify_mon_payment lib cfg n h s a w
         = (Inr (False, Some (''Transaction '' @ h @ '' pending or not yet mined'')), w2)"
  using assms by (cases p) (simp add: verify_mon_payment_def)

lemma verify_mon_payment_checked:
  assumes "normalize_addresses lib cfg s = Inr (s', r)"
    and "get_transaction n h w = (tx, w1)" and "present tx"
    and "get_transaction_receipt n h w1 = (rc, w2)" and "present rc"
  shows "verify_mon_payment lib cfg n h s a w = (check_status lib h s' r a tx rc, w2)"
  using assms by (simp add: verify_mon_payment_def)

lemma fstring2_rejects: "fstring2 p a q b \<noteq> Inr (True, e)"
  by (auto simp: fstring2_def split: sum.splits)

lemma check_chain_accepts:
  "check_chain tx = Inr (True, None) \<longleftrightarrow>
   (\<not> truthy (dict_get tx ''chainId'' PNone) \<or> int16 (dict_get tx ''chainId'' PNone) = Inr CHAIN_ID)"
  by (auto simp: check_chain_def Let_def fstring2_rejects split: sum.splits)

lemma check_value_decoded:
  "int16 (dict_get tx ''value'' (PStr ''0x0'')) = Inr v \<Longrightarrow>
   check_value a tx =
     (if v < a then fstring2 ''Amount too low: expected '' a '', got '' v
      else check_chain tx)"
  by (simp add: check_value_def)

lemma check_recipient_matched:
  "truthy (dict_get tx ''to'' PNone) \<Longrightarrow>
   to_checksum_address lib (dict_get tx ''to'' PNone) = Inr r \<Longrightarrow>
   check_recipient lib r a tx = check_value a tx"
  by (simp add: check_recipient_def)

lemma check_sender_matched:
  "to_checksum_address lib (dict_get tx ''from'' (PStr [])) = Inr s \<Longrightarrow>
   check_sender lib s r a (Obj tx) = check_recipient lib r a tx"
  by (simp add: check_sender_def)

lemma check_status_success:
  "dict_get rd ''status'' PNone = PStr ''0x1'' \<Longrightarrow>
   check_status lib h s r a tx (Obj rd) = check_sender lib s r a tx"
  by (simp add: check_status_def)

lemma check_status_failed:
  "dict_get rd ''status'' PNone \<noteq> PStr ''0x1'' \<Longrightarrow>
   check_status lib h s r a tx (Obj rd) =
     Inr (False, Some (''Transaction '' @ h @ '' failed (status: ''
                       @ py_str (dict_get rd ''status'' PNone) @ '')''))"
  by (simp add: check_status_def)

section \<open>The concrete nodes and inputs, evaluated\<close>

lemma lower_char_eval:
  "lower_char (CHR 0x20) = CHR 0x20" "lower_char (CHR 0x21) = CHR 0x21"
  "lower_char (CHR 0x22) = CHR 0x22" "lower_char (CHR 0x23) = CHR 0x23"
  "lower_char (CHR 0x24) = CHR 0x24" "lower_char (CHR 0x25) = CHR 0x25"
  "lower_char (CHR 0x26) = CHR 0x26" "lower_char (CHR 0x27) = CHR 0x27"
  "lower_char (CHR 0x28) = CHR 0x28" "lower_char (CHR 0x29) = CHR 0x29"
  "lower_char (CHR 0x2A) = CHR 0x2A" "lower_char (CHR 0x2B) = CHR 0x2B"
  "lower_char (CHR 0x2C) = CHR 0x2C" "lower_char (CHR 0x2D) = CHR 0x2D"
  "lower_char (CHR 0x2E) = CHR 0x2E" "lower_char (CHR 0x2F) = CHR 0x2F"
  "lower_char (CHR 0x30) = CHR 0x30" "lower_char (CHR 0x31) = CHR 0x31"
  "lower_char (CHR 0x32) = CHR 0x32" "lower_char (CHR 0x33) = CHR 0x33"
  "lower_char (CHR 0x34) = CHR 0x34" "lower_char (CHR 0x35) = CHR 0x35"
  "lower_char (CHR 0x36) = CHR 0x36" "lower_char (CHR 0x37) = CHR 0x37"
  "lower_char (CHR 0x38) = CHR 0x38" "lower_char (CHR 0x39) = CHR 0x39"
  "lower_char (CHR 0x3A) = CHR 0x3A" "lower_char (CHR 0x3B) = CHR 0x3B"
  "lower_char (CHR 0x3C) = CHR 0x3C" "lower_char (CHR 0x3D) = CHR 0x3D"
  "lower_char (CHR 0x3E) = CHR 0x3E" "lower_char (CHR 0x3F) = CHR 0x3F"
  "lower_char (CHR 0x40) = CHR 0x40" "lower_char (CHR 0x41) = CHR 0x61"
  "lower_char (CHR 0x42) = CHR 0x62" "lower_char (CHR 0x43) = CHR 0x63"
  "lower_char (CHR 0x44) = CHR 0x64" "lower_char (CHR 0x45) = CHR 0x65"
  "lower_char (CHR 0x46) = CHR 0x66" "lower_char (CHR 0x47) = CHR 0x67"
  "lower_char (CHR 0x48) = CHR 0x68" "lower_char (CHR 0x49) = CHR 0x69"
  "lower_char (CHR 0x4A) = CHR 0x6A" "lower_char (CHR 0x4B) = CHR 0x6B"
  "lower_char (CHR 0x4C) = CHR 0x6C" "lower_char (CHR 0x4D) = CHR 0x6D"
  "lower_char (CHR 0x4E) = CHR 0x6E" "lower_char (CHR 0x4F) = CHR 0x6F"
  "lower_char (CHR 0x50) = CHR 0x70" "lower_char (CHR 0x51) = CHR 0x71"
  "lower_char (CHR 0x52) = CHR 0x72" "lower_char (CHR 0x53) = CHR 0x73"
  "lower_char (CHR 0x54) = CHR 0x74" "lower_char (CHR 0x55) = CHR 0x75"
  "lower_char (CHR 0x56) = CHR 0x76" "lower_char (CHR 0x57) = CHR 0x77"
  "lower_char (CHR 0x58) = CHR 0x78" "lower_char (CHR 0x59) = CHR 0x79"
  "lower_char (CHR 0x5A) = CHR 0x7A" "lower_char (CHR 0x5B) = CHR 0x5B"
  "lower_char (CHR 0x5C) = CHR 0x5C" "lower_char (CHR 0x5D) = CHR 0x5D"
  "lower_char (CHR 0x5E) = CHR 0x5E" "lower_char (CHR 0x5F) = CHR 0x5F"
  "lower_char (CHR 0x60) = CHR 0x60" "lower_char (CHR 0x61) = CHR 0x61"
  "lower_char (CHR 0x62) = CHR 0x62" "lower_char (CHR 0x63) = CHR 0x63"
  "lower_char (CHR 0x64) = CHR 0x64" "lower_char (CHR 0x65) = CHR 0x65"
  "lower_char (CHR 0x66) = CHR 0x66" "lower_char (CHR 0x67) = CHR 0x67"
  "lower_char (CHR 0x68) = CHR 0x68" "lower_char (CHR 0x69) = CHR 0x69"
  "lower_char (CHR 0x6A) = CHR 0x6A" "lower_char (CHR 0x6B) = CHR 0x6B"
  "lower_char (CHR 0x6C) = CHR 0x6C" "lower_char (CHR 0x6D) = CHR 0x6D"
  "lower_char (CHR 0x6E) = CHR 0x6E" "lower_char (CHR 0x6F) = CHR 0x6F"
  "lower_char (CHR 0x70) = CHR 0x70" "lower_char (CHR 0x71) = CHR 0x71"
  "lower_char (CHR 0x72) = CHR 0x72" "lower_char (CHR 0x73) = CHR 0x73"
  "lower_char (CHR 0x74) = CHR 0x74" "lower_char (CHR 0x75) = CHR 0x75"
  "lower_char (CHR 0x76) = CHR 0x76" "lower_char (CHR 0x77) = CHR 0x77"
  "lower_char (CHR 0x78) = CHR 0x78" "lower_char (CHR 0x79) = CHR 0x79"
  "lower_char (CHR 0x7A) = CHR 0x7A" "lower_char (CHR 0x7B) = CHR 0x7B"
  "lower_char (CHR 0x7C) = CHR 0x7C" "lower_char (CHR 0x7D) = CHR 0x7D"
  "lower_char (CHR 0x7E) = CHR 0x7E"
  by (simp_all add: lower_char_def latin_upper_def latin_lower_def)

lemma upper_char_eval:
  "upper_char (CHR 0x30) = CHR 0x30" "upper_char (CHR 0x31) = CHR 0x31"
  "upper_char (CHR 0x32) = CHR 0x32" "upper_char (CHR 0x33) = CHR 0x33"
  "upper_char (CHR 0x34) = CHR 0x34" "upper_char (CHR 0x35) = CHR 0x35"
  "upper_char (CHR 0x36) = CHR 0x36" "upper_char (CHR 0x37) = CHR 0x37"
  "upper_char (CHR 0x38) = CHR 0x38" "upper_char (CHR 0x39) = CHR 0x39"
  "upper_char (CHR 0x61) = CHR 0x41" "upper_char (CHR 0x62) = CHR 0x42"
  "upper_char (CHR 0x63) = CHR 0x43" "upper_char (CHR 0x64) = CHR 0x44"
  "upper_char (CHR 0x65) = CHR 0x45" "upper_char (CHR 0x66) = CHR 0x46"
  "upper_char (CHR 0x78) = CHR 0x58"
  by (simp_all add: upper_char_def)

lemmas lib_defs = to_checksum_address_def to_normalized_address_def lower_def lower_char_eval
  upper_char_eval is_hex_address_def add_0x_prefix_def is_hex_digit_def

lemmas int_defs = int16_def py_int16_def strip_def is_space_def hex_body_def hex_val_def

lemma checksum_payer:
  "to_checksum_address lib0 (PStr payer) = Inr ''0x00000000000000000000000000000000000000AA''"
  by (simp add: lib_defs lib0_def payer_def)

lemma checksum_recipient:
  "to_checksum_address lib0 (PStr (PAYMENT_RECIPIENT_ADDRESS default_config))
   = Inr ''0x0000000000000000000000000000000000000001''"
  by (simp add: lib_defs lib0_def default_config_def)

lemma checksum_empty: "to_checksum_address lib (PStr []) = Inl ValueError"
  by (simp add: lib_defs)

lemma normalize_payer:
  "normalize_addresses lib0 default_config payer
   = Inr (''0x00000000000000000000000000000000000000AA'',
          ''0x0000000000000000000000000000000000000001'')"
  by (simp add: normalize_addresses_def checksum_payer checksum_recipient)

lemma payer_not_empty: "payer \<noteq> []"
  by (simp add: payer_def)

lemma recipient_not_empty: "PAYMENT_RECIPIENT_ADDRESS default_config \<noteq> []"
  by (simp add: default_config_def)

lemma fixture_decodes:
  "decodes (Obj (transfer v))" "decodes (Obj (with_chain c (transfer v)))"
  "decodes (Obj (creation v))" "decodes (Obj (senderless v))"
  "decodes (Obj receipt_ok)" "decodes (Obj receipt_failed)" "decodes (Obj receipt_no_status)"
  "decodes Null"
  by (simp_all add: decodes.simps transfer_def with_chain_def creation_def senderless_def
                    receipt_ok_def receipt_failed_def receipt_no_status_def)

lemma steady_node_transaction:
  "decodes tx \<Longrightarrow> get_transaction (steady_node tx rc) h w
   = (tx, w\<lparr>requests := requests w @ [(Eth_getTransactionByHash, h)]\<rparr>)"
  by (simp add: get_transaction_def post_def steady_node_def result_of_def)

lemma steady_node_receipt:
  "decodes rc \<Longrightarrow> get_transaction_receipt (steady_node tx rc) h w
   = (rc, w\<lparr>requests := requests w @ [(Eth_getTransactionReceipt, h)]\<rparr>)"
  by (simp add: get_transaction_receipt_def post_def steady_node_def result_of_def)

lemma int16_five: "int16 (PStr ''0x5'') = Inr 5"
  by (simp add: int_defs)

lemma int16_three: "int16 (PStr ''0x3'') = Inr 3"
  by (simp add: int_defs)

lemma int16_one: "int16 (PStr ''0x1'') = Inr 1"
  by (simp add: int_defs)

lemma verify_mon_payment_to_sender:
  assumes "normalize_addresses lib cfg s = Inr (s', r)"
    and "get_transaction n h w = (tx, w1)" and "present tx"
    and "get_transaction_receipt n h w1 = (Obj rd, w2)"
    and "dict_get rd ''status'' PNone = PStr ''0x1''"
  shows "verify_mon_payment lib cfg n h s a w = (check_sender lib s' r a tx, w2)"
proof -
  have "rd \<noteq> []" using assms(5) by (auto simp: dict_get_def)
  then have "verify_mon_payment lib cfg n h s a w = (check_status lib h s' r a tx (Obj rd), w2)"
    using assms(1-4) by (intro verify_mon_payment_checked) auto
  then show ?thesis using assms(5) by (simp add: check_status_success)
qed

lemma verify_mon_payment_to_recipient:
  assumes "normalize_addresses lib cfg s = Inr (s', r)"
    and "get_transaction n h w = (Obj tx, w1)"
    and "get_transaction_receipt n h w1 = (Obj rd, w2)"
    and "dict_get rd ''status'' PNone = PStr ''0x1''"
    and "to_checksum_address lib (dict_get tx ''from'' (PStr [])) = Inr s'"
  shows "verify_mon_payment lib cfg n h s a w = (check_recipient lib r a tx, w2)"
proof -
  have "tx \<noteq> []" using assms(5) by (auto simp: dict_get_def checksum_empty)
  then have "verify_mon_payment lib cfg n h s a w = (check_sender lib s' r a (Obj tx), w2)"
    using assms(1-4) by (intro verify_mon_payment_to_sender) auto
  then show ?thesis using assms(5) by (simp add: check_sender_matched)
qed

lemma verify_mon_payment_to_value:
  assumes "normalize_addresses lib cfg s = Inr (s', r)"
    and "get_transaction n h w = (Obj tx, w1)"
    and "get_transaction_receipt n h w1 = (Obj rd, w2)"
    and "dict_get rd ''status'' PNone = PStr ''0x1''"
    and "to_checksum_address lib (dict_get tx ''from'' (PStr [])) = Inr s'"
    and "truthy (dict_get tx ''to'' PNone)"
    and "to_checksum_address lib (dict_get tx ''to'' PNone) = Inr r"
  shows "verify_mon_payment lib cfg n h s a w = (check_value a tx, w2)"
  using verify_mon_payment_to_recipient [OF assms(1-5)] assms(6,7)
  by (simp add: check_recipient_matched)

lemma transfer_members:
  "dict_get (transfer v) ''from'' d = PStr payer"
  "dict_get (transfer v) ''to'' d = PStr (PAYMENT_RECIPIENT_ADDRESS default_config)"
  "dict_get (transfer v) ''value'' d = PStr v"
  "dict_get (transfer v) ''chainId'' d = d"
  "map_of (transfer v) ''chainId'' = None"
  "transfer v \<noteq> []"
  by (simp_all add: dict_get_def transfer_def)

lemma with_chain_members:
  "dict_get (with_chain c (transfer v)) ''from'' d = PStr payer"
  "dict_get (with_chain c (transfer v)) ''to'' d = PStr (PAYMENT_RECIPIENT_ADDRESS default_config)"
  "dict_get (with_chain c (transfer v)) ''value'' d = PStr v"
  "dict_get (with_chain c (transfer v)) ''chainId'' d = PStr c"
  "with_chain c (transfer v) \<noteq> []"
  by (simp_all add: dict_get_def transfer_def with_chain_def)

lemma creation_members:
  "dict_get (creation v) ''from'' d = PStr payer"
  "dict_get (creation v) ''value'' d = PStr v"
  "map_of (creation v) ''to'' = None"
  "creation v \<noteq> []"
  by (simp_all add: dict_get_def creation_def)

lemma senderless_members:
  "dict_get (senderless v) ''from'' d = d"
  "senderless v \<noteq> []"
  by (simp_all add: dict_get_def senderless_def)

lemma receipt_ok_status:
  "dict_get receipt_ok ''status'' d = PStr ''0x1''" "receipt_ok \<noteq> []"
  by (simp_all add: dict_get_def receipt_ok_def)

lemma str_int_small:
  "str_int 1 = Inr ''1''" "str_int 3 = Inr ''3''" "str_int 5 = Inr ''5''"
  "str_int CHAIN_ID = Inr ''10143''" "str_int 10143 = Inr ''10143''"
  by (simp_all add: str_int_def printable_def int_max_str_digits_def digits_def show_nat.simps
                    digit_char_def CHAIN_ID_def)


lemma transfer_sender:
  "to_checksum_address lib0 (dict_get (transfer v) ''from'' (PStr []))
   = Inr ''0x00000000000000000000000000000000000000AA''"
  by (simp add: transfer_members checksum_payer)

lemma transfer_has_recipient: "truthy (dict_get (transfer v) ''to'' PNone)"
  by (simp add: transfer_members recipient_not_empty)

lemma transfer_recipient:
  "to_checksum_address lib0 (dict_get (transfer v) ''to'' PNone)
   = Inr ''0x0000000000000000000000000000000000000001''"
  by (simp add: transfer_members checksum_recipient)

lemma transfer_value_five: "int16 (dict_get (transfer ''0x5'') ''value'' (PStr ''0x0'')) = Inr 5"
  by (simp add: transfer_members int16_five)

lemma transfer_value_three: "int16 (dict_get (transfer ''0x3'') ''value'' (PStr ''0x0'')) = Inr 3"
  by (simp add: transfer_members int16_three)

lemma foreign_sender:
  "to_checksum_address lib0 (dict_get (with_chain c (transfer v)) ''from'' (PStr []))
   = Inr ''0x00000000000000000000000000000000000000AA''"
  by (simp add: with_chain_members checksum_payer)

lemma foreign_has_recipient: "truthy (dict_get (with_chain c (transfer v)) ''to'' PNone)"
  by (simp add: with_chain_members recipient_not_empty)

lemma foreign_recipient:
  "to_checksum_address lib0 (dict_get (with_chain c (transfer v)) ''to'' PNone)
   = Inr ''0x0000000000000000000000000000000000000001''"
  by (simp add: with_chain_members checksum_recipient)

lemma receipt_failed_status:
  "dict_get receipt_failed ''status'' d = PStr ''0x0''" "receipt_failed \<noteq> []"
  by (simp_all add: dict_get_def receipt_failed_def)

lemma receipt_no_status_status:
  "dict_get receipt_no_status ''status'' d = d" "receipt_no_status \<noteq> []"
  by (simp_all add: dict_get_def receipt_no_status_def)

lemma transfer_five_accepted:
  "check_sender lib0 ''0x00000000000000000000000000000000000000AA''
     ''0x0000000000000000000000000000000000000001'' 5 (Obj (transfer ''0x5''))
   = Inr (True, None)"
  by (simp add: check_sender_matched [OF transfer_sender]
                check_recipient_matched [OF transfer_has_recipient transfer_recipient]
                check_value_decoded [OF transfer_value_five]
                check_chain_def transfer_members)

section \<open>Messages of the later clauses\<close>

lemma no_recipient_is_not_failed:
  "''Transaction has no recipient (contract creation?)''
   \<noteq> ''Transaction '' @ h @ '' failed (status: '' @ t @ '')''" if "last t \<noteq> CHR ''?''" "t \<noteq> []"
proof
  assume eq: "''Transaction has no recipient (contract creation?)''
   = ''Transaction '' @ h @ '' failed (status: '' @ t @ '')''"
  have "last (butlast (''Transaction '' @ h @ '' failed (status: '' @ t @ '')'')) = last t"
    using that(2) by (simp add: butlast_append)
  moreover have "last (butlast ''Transaction has no recipient (contract creation?)'') = CHR ''?''"
    by simp
  ultimately show False using eq that(1) by metis
qed

lemma check_chain_not_failed:
  "check_chain tx \<noteq> Inr (False, Some (''Transaction '' @ m))"
  by (auto simp: check_chain_def Let_def fstring2_def split: sum.splits)

lemma check_value_not_failed:
  "check_value a tx \<noteq> Inr (False, Some (''Transaction '' @ h @ '' failed (status: '' @ t @ '')''))"
  using check_chain_not_failed [of tx]
  by (auto simp: check_value_def fstring2_def split: sum.splits)

lemma check_recipient_not_failed:
  assumes "last t \<noteq> CHR ''?''" "t \<noteq> []"
  shows "check_recipient lib r a tx
         \<noteq> Inr (False, Some (''Transaction '' @ h @ '' failed (status: '' @ t @ '')''))"
  using check_value_not_failed [of a tx h t] no_recipient_is_not_failed [OF assms, of h]
  by (auto simp: check_recipient_def Let_def split: sum.splits)

lemma check_sender_not_failed:
  assumes "last t \<noteq> CHR ''?''" "t \<noteq> []"
  shows "check_sender lib s r a tx
         \<noteq> Inr (False, Some (''Transaction '' @ h @ '' failed (status: '' @ t @ '')''))"
  using check_recipient_not_failed [OF assms, of lib r a _ h]
  by (auto simp: check_sender_def split: sum.splits jresult.splits)

section \<open>What the gateway posts\<close>

lemma get_transaction_reply:
  "get_transaction n h w
   = (result_of (respond n (length (requests w)) Eth_getTransactionByHash h),
      w\<lparr>clock := clock w + latency n (length (requests w)),
        requests := requests w @ [(Eth_getTransactionByHash, h)]\<rparr>)"
  by (simp add: get_transaction_def post_def Let_def)

lemma get_transaction_receipt_reply:
  "get_transaction_receipt n h w
   = (result_of (respond n (length (requests w)) Eth_getTransactionReceipt h),
      w\<lparr>clock := clock w + latency n (length (requests w)),
        requests := requests w @ [(Eth_getTransactionReceipt, h)]\<rparr>)"
  by (simp add: get_transaction_receipt_def post_def Let_def)

section \<open>What an accepting verdict says of the replies\<close>

lemma check_chain_accept:
  "check_chain tx = Inr (True, e) \<Longrightarrow>
   e = None \<and> (\<not> truthy (dict_get tx ''chainId'' PNone)
               \<or> int16 (dict_get tx ''chainId'' PNone) = Inr CHAIN_ID)"
  by (auto simp: check_chain_def Let_def fstring2_rejects split: sum.splits if_splits)

lemma check_value_accept:
  "check_value a tx = Inr (True, e) \<Longrightarrow>
   \<exists>val. int16 (dict_get tx ''value'' (PStr ''0x0'')) = Inr val \<and> a \<le> val
         \<and> check_chain tx = Inr (True, e)"
  by (auto simp: check_value_def fstring2_rejects split: sum.splits if_splits)

lemma check_recipient_accept:
  "check_recipient lib r a tx = Inr (True, e) \<Longrightarrow>
   truthy (dict_get tx ''to'' PNone) \<and> to_checksum_address lib (dict_get tx ''to'' PNone) = Inr r
   \<and> check_value a tx = Inr (True, e)"
  by (auto simp: check_recipient_def Let_def split: sum.splits if_splits)

lemma check_sender_accept:
  "check_sender lib s r a t = Inr (True, e) \<Longrightarrow>
   \<exists>tx. t = Obj tx \<and> to_checksum_address lib (dict_get tx ''from'' (PStr [])) = Inr s
        \<and> check_recipient lib r a tx = Inr (True, e)"
  by (auto simp: check_sender_def split: sum.splits if_splits jresult.splits)

lemma check_status_accept:
  "check_status lib h s r a t rc = Inr (True, e) \<Longrightarrow>
   \<exists>rd. rc = Obj rd \<and> dict_get rd ''status'' PNone = PStr ''0x1''
        \<and> check_sender lib s r a t = Inr (True, e)"
  by (auto simp: check_status_def Let_def split: sum.splits if_splits jresult.splits)

lemma verify_mon_payment_accept:
  assumes "verify_mon_payment lib cfg n h s a w = (Inr (True, e), w2)"
  shows "\<exists>s' r t rc w1. normalize_addresses lib cfg s = Inr (s', r)
           \<and> get_transaction n h w = (t, w1)
           \<and> get_transaction_receipt n h w1 = (rc, w2)
           \<and> check_status lib h s' r a t rc = Inr (True, e)"
proof (cases "normalize_addresses lib cfg s")
  case (Inl msg)
  with assms show ?thesis by (simp add: verify_mon_payment_def)
next
  case (Inr p)
  obtain s' r where p: "p = (s', r)" by (cases p)
  obtain t w1 where t: "get_transaction n h w = (t, w1)" by fastforce
  obtain rc w2' where rc: "get_transaction_receipt n h w1 = (rc, w2')" by fastforce
  from assms Inr p t rc have "w2' = w2 \<and> check_status lib h s' r a t rc = Inr (True, e)"
    by (auto simp: verify_mon_payment_def split: if_splits)
  with Inr p t rc show ?thesis by auto
qed

lemma verify_mon_payment_clauses:
  assumes "verify_mon_payment lib cfg n h s a w = (Inr (True, e), w2)"
  shows "\<exists>s' r tx rd val.
           normalize_addresses lib cfg s = Inr (s', r)
         \<and> result_of (respond n (length (requests w)) Eth_getTransactionByHash h) = Obj tx
         \<and> result_of (respond n (Suc (length (requests w))) Eth_getTransactionReceipt h) = Obj rd
         \<and> dict_get rd ''status'' PNone = PStr ''0x1''
         \<and> to_checksum_address lib (dict_get tx ''from'' (PStr [])) = Inr s'
         \<and> truthy (dict_get tx ''to'' PNone)
         \<and> to_checksum_address lib (dict_get tx ''to'' PNone) = Inr r
         \<and> int16 (dict_get tx ''value'' (PStr ''0x0'')) = Inr val \<and> a \<le> val
         \<and> (\<not> truthy (dict_get tx ''chainId'' PNone)
              \<or> int16 (dict_get tx ''chainId'' PNone) = Inr CHAIN_ID)
         \<and> e = None
         \<and> requests w2 = requests w @ [(Eth_getTransactionByHash, h), (Eth_getTransactionReceipt, h)]"
proof -
  from verify_mon_payment_accept [OF assms] obtain s' r t rc w1 where
    n: "normalize_addresses lib cfg s = Inr (s', r)" and
    t: "get_transaction n h w = (t, w1)" and
    rc: "get_transaction_receipt n h w1 = (rc, w2)" and
    st: "check_status lib h s' r a t rc = Inr (True, e)" by blast
  from check_status_accept [OF st] obtain rd where
    rd: "rc = Obj rd" "dict_get rd ''status'' PNone = PStr ''0x1''" and
    se: "check_sender lib s' r a t = Inr (True, e)" by blast
  from check_sender_accept [OF se] obtain tx where
    tx: "t = Obj tx" "to_checksum_address lib (dict_get tx ''from'' (PStr [])) = Inr s'" and
    re: "check_recipient lib r a tx = Inr (True, e)" by blast
  from check_recipient_accept [OF re] have
    to: "truthy (dict_get tx ''to'' PNone)"
        "to_checksum_address lib (dict_get tx ''to'' PNone) = Inr r" and
    va: "check_value a tx = Inr (True, e)" by blast+
  from check_value_accept [OF va] obtain val where
    val: "int16 (dict_get tx ''value'' (PStr ''0x0'')) = Inr val" "a \<le> val" and
    ch: "check_chain tx = Inr (True, e)" by blast
  note ch' = check_chain_accept [OF ch]
  have w1: "w1 = w\<lparr>clock := clock w + latency n (length (requests w)),
                     requests := requests w @ [(Eth_getTransactionByHash, h)]\<rparr>"
    and t': "result_of (respond n (length (requests w)) Eth_getTransactionByHash h) = Obj tx"
    using t tx(1) by (simp_all add: get_transaction_reply)
  have w2: "requests w2 = requests w1 @ [(Eth_getTransactionReceipt, h)]"
    and rc': "result_of (respond n (length (requests w1)) Eth_getTransactionReceipt h) = Obj rd"
    using rc rd(1) by (auto simp: get_transaction_receipt_reply)
  have "length (requests w1) = Suc (length (requests w))" "requests w2
        = requests w @ [(Eth_getTransactionByHash, h), (Eth_getTransactionReceipt, h)]"
    using w1 w2 by simp_all
  with n t' rc' rd(2) tx(2) to val ch' show ?thesis by auto
qed

section \<open>More evaluations at the concrete nodes\<close>

lemma w0_fields: "clock w0 = 0" "requests w0 = []" "sleeps w0 = []"
  by (simp_all add: w0_def)

lemma failing_after_transaction:
  "decodes tx \<Longrightarrow> get_transaction (failing_after c tx rc) h w
   = (if length (requests w) < c then tx else Null,
      w\<lparr>requests := requests w @ [(Eth_getTransactionByHash, h)]\<rparr>)"
  by (simp add: get_transaction_reply failing_after_def result_of_def)

lemma failing_after_receipt:
  "decodes rc \<Longrightarrow> get_transaction_receipt (failing_after c tx rc) h w
   = (if length (requests w) < c then rc else Null,
      w\<lparr>requests := requests w @ [(Eth_getTransactionReceipt, h)]\<rparr>)"
  by (simp add: get_transaction_receipt_reply failing_after_def result_of_def)

lemma steady_transfer_accepted:
  "verify_mon_payment lib0 default_config
     (steady_node (Obj (transfer ''0x5'')) (Obj receipt_ok)) h payer 5 w
   = (Inr (True, None),
      w\<lparr>requests := requests w @ [(Eth_getTransactionByHash, h),
                                     (Eth_getTransactionReceipt, h)]\<rparr>)"
proof -
  have "present (Obj (transfer ''0x5''))" by (simp add: transfer_members)
  from verify_mon_payment_to_sender [where a = 5, OF normalize_payer
      steady_node_transaction [OF fixture_decodes(1)] this
      steady_node_receipt [OF fixture_decodes(5)] receipt_ok_status(1)]
  show ?thesis by (simp add: transfer_five_accepted)
qed

lemma dropped_transfer_accepted:
  "verify_mon_payment lib0 default_config
     (failing_after 2 (Obj (transfer ''0x5'')) (Obj receipt_ok)) h payer 5 w0
   = (Inr (True, None),
      w0\<lparr>requests := [(Eth_getTransactionByHash, h), (Eth_getTransactionReceipt, h)]\<rparr>)"
proof -
  have t: "get_transaction (failing_after 2 (Obj (transfer ''0x5'')) (Obj receipt_ok)) h w0
           = (Obj (transfer ''0x5''), w0\<lparr>requests := [(Eth_getTransactionByHash, h)]\<rparr>)"
    by (simp add: failing_after_transaction fixture_decodes w0_def)
  have r: "get_transaction_receipt (failing_after 2 (Obj (transfer ''0x5'')) (Obj receipt_ok)) h
             (w0\<lparr>requests := [(Eth_getTransactionByHash, h)]\<rparr>)
           = (Obj receipt_ok,
              w0\<lparr>requests := [(Eth_getTransactionByHash, h), (Eth_getTransactionReceipt, h)]\<rparr>)"
    by (simp add: failing_after_receipt fixture_decodes w0_def)
  have "present (Obj (transfer ''0x5''))" by (simp add: transfer_members)
  from verify_mon_payment_to_sender [where a = 5, OF normalize_payer t this r
      receipt_ok_status(1)]
  show ?thesis by (simp add: transfer_five_accepted)
qed

section \<open>Rounds of the polling loop\<close>

lemma poll_timed_out:
  "\<not> int (clock w) - int st < 1000 * t \<Longrightarrow>
   poll lib cfg n fa ea h t st w = (Inr (False, None), w)"
  by (simp add: poll.simps)

lemma poll_raises:
  "int (clock w) - int st < 1000 * t \<Longrightarrow>
   verify_mon_payment lib cfg n h fa ea w = (Inl e, w1) \<Longrightarrow>
   poll lib cfg n fa ea h t st w = (Inl e, w1)"
  by (simp add: poll.simps)

lemma poll_accepts:
  "int (clock w) - int st < 1000 * t \<Longrightarrow>
   verify_mon_payment lib cfg n h fa ea w = (Inr (True, e), w1) \<Longrightarrow>
   poll lib cfg n fa ea h t st w = (Inr (True, Some h), w1)"
  by (simp add: poll.simps)

lemma poll_retries:
  "int (clock w) - int st < 1000 * t \<Longrightarrow>
   verify_mon_payment lib cfg n h fa ea w = (Inr (False, Some e), w1) \<Longrightarrow>
   e \<noteq> [] \<Longrightarrow> says_pending e \<Longrightarrow>
   poll lib cfg n fa ea h t st w = poll lib cfg n fa ea h t st (sleep n 2 w1)"
  by (subst poll.simps) simp

lemma poll_rejects:
  "int (clock w) - int st < 1000 * t \<Longrightarrow>
   verify_mon_payment lib cfg n h fa ea w = (Inr (False, Some e), w1) \<Longrightarrow>
   \<not> says_pending e \<Longrightarrow>
   poll lib cfg n fa ea h t st w = (Inr (False, None), w1)"
  using verify_mon_payment_message [of lib cfg n h fa ea w "Some e" w1]
  by (subst poll.simps) simp

lemma verify_mon_payment_sleeps:
  assumes "verify_mon_payment lib cfg n h s a w = (r, w')"
  shows "sleeps w' = sleeps w"
proof (cases "normalize_addresses lib cfg s")
  case (Inl msg)
  with assms show ?thesis by (auto simp: verify_mon_payment_def)
next
  case (Inr p)
  with assms show ?thesis
    by (cases p)
       (auto simp: verify_mon_payment_def get_transaction_reply get_transaction_receipt_reply
             split: if_splits)
qed

lemma says_pending_not_found: "says_pending ''Transaction pending not found on chain''"
  by (simp add: says_pending_def lower_def lower_char_eval)

lemma unknown_hash_attempt:
  "verify_mon_payment lib0 default_config (steady_node Null Null) h payer 5 w
   = (Inr (False, Some (''Transaction '' @ h @ '' not found on chain'')),
      w\<lparr>requests := requests w @ [(Eth_getTransactionByHash, h)]\<rparr>)"
  by (rule verify_mon_payment_not_found
        [OF normalize_payer steady_node_transaction [OF fixture_decodes(8)]]) simp

lemma steady_node_timing:
  "latency (steady_node tx rc) k = 0" "oversleep (steady_node tx rc) k = 0"
  by (simp_all add: steady_node_def)

lemma unknown_hash_round:
  assumes "int c - int st < 1000 * t"
  shows "poll lib0 default_config (steady_node Null Null) payer 5 ''pending'' t st
           \<lparr>clock = c, requests = rs, sleeps = ss\<rparr>
         = poll lib0 default_config (steady_node Null Null) payer 5 ''pending'' t st
           \<lparr>clock = c + 2000,
            requests = rs @ [(Eth_getTransactionByHash, ''pending'')],
            sleeps = ss @ [2]\<rparr>"
proof -
  have "int (clock \<lparr>clock = c, requests = rs, sleeps = ss\<rparr>) - int st < 1000 * t"
    using assms by simp
  from poll_retries [OF this unknown_hash_attempt] says_pending_not_found
  show ?thesis by (simp add: sleep_def steady_node_timing)
qed

lemma senderless_raises:
  "verify_mon_payment lib0 default_config
     (steady_node (Obj (senderless ''0x5'')) (Obj receipt_ok)) h payer 5 w
   = (Inl ValueError,
      w\<lparr>requests := requests w @ [(Eth_getTransactionByHash, h),
                                     (Eth_getTransactionReceipt, h)]\<rparr>)"
proof -
  have "present (Obj (senderless ''0x5''))" by (simp add: senderless_members)
  from verify_mon_payment_to_sender [where a = 5, OF normalize_payer
      steady_node_transaction [OF fixture_decodes(4)] this
      steady_node_receipt [OF fixture_decodes(5)] receipt_ok_status(1)]
  show ?thesis by (simp add: check_sender_def senderless_members checksum_empty)
qed

lemma poll_result_shape:
  "fst (poll lib cfg n fa ea h t st w) = Inr (ok, x) \<Longrightarrow> x = (if ok then Some h else None)"
proof (induction lib cfg n fa ea h t st w rule: poll.induct)
  case (1 lib cfg n fa ea h t st w)
  show ?case
  proof (cases "int (clock w) - int st < 1000 * t")
    case False
    with "1.prems" show ?thesis by (simp add: poll_timed_out)
  next
    case True
    obtain res w1 where vm: "verify_mon_payment lib cfg n h fa ea w = (res, w1)" by fastforce
    show ?thesis
    proof (cases res)
      case (Inl e)
      with "1.prems" True vm show ?thesis by (simp add: poll_raises)
    next
      case (Inr p)
      obtain valid err where p: "p = (valid, err)" by (cases p)
      show ?thesis
      proof (cases valid)
        case True
        with "1.prems" \<open>int (clock w) - int st < 1000 * t\<close> vm Inr p show ?thesis
          by (simp add: poll_accepts)
      next
        case False
        with vm Inr p have "verify_mon_payment lib cfg n h fa ea w = (Inr (False, err), w1)"
          by simp
        from verify_mon_payment_message [OF this] obtain e where e: "err = Some e" "e \<noteq> []"
          by blast
        show ?thesis
        proof (cases "says_pending e")
          case pending: True
          have "poll lib cfg n fa ea h t st w = poll lib cfg n fa ea h t st (sleep n 2 w1)"
            using True vm Inr p False e pending by (intro poll_retries) auto
          moreover have "fst (poll lib cfg n fa ea h t st (sleep n 2 w1)) = Inr (ok, x)
                         \<Longrightarrow> x = (if ok then Some h else None)"
            using True vm Inr p False e pending
            by (intro "1.IH"(2) [of res w1 p valid err e]) auto
          ultimately show ?thesis using "1.prems" by simp
        next
          case terminal: False
          have "poll lib cfg n fa ea h t st w = (Inr (False, None), w1)"
            using True vm Inr p False e terminal by (intro poll_rejects [of _ _ _ _ _ _ _ _ _ e]) auto
          with "1.prems" show ?thesis by simp
        qed
      qed
    qed
  qed
qed

lemma poll_accept_sound:
  "fst (poll lib cfg n fa ea h t st w) = Inr (True, x) \<Longrightarrow>
   \<exists>k w1. iteration lib cfg n fa ea h t st k w = Some w1
         \<and> int (clock w1) - int st < 1000 * t
         \<and> fst (verify_mon_payment lib cfg n h fa ea w1) = Inr (True, None)"
proof (induction lib cfg n fa ea h t st w rule: poll.induct)
  case (1 lib cfg n fa ea h t st w)
  show ?case
  proof (cases "int (clock w) - int st < 1000 * t")
    case False
    with "1.prems" show ?thesis by (simp add: poll_timed_out)
  next
    case True
    obtain res w1 where vm: "verify_mon_payment lib cfg n h fa ea w = (res, w1)" by fastforce
    show ?thesis
    proof (cases res)
      case (Inl e)
      with "1.prems" True vm show ?thesis by (simp add: poll_raises)
    next
      case (Inr p)
      obtain valid err where p: "p = (valid, err)" by (cases p)
      show ?thesis
      proof (cases valid)
        case valid: True
        with vm Inr p have "verify_mon_payment lib cfg n h fa ea w = (Inr (True, err), w1)"
          by simp
        from verify_mon_payment_clauses [OF this] have "err = None" by blast
        with vm Inr p valid have "fst (verify_mon_payment lib cfg n h fa ea w) = Inr (True, None)"
          by simp
        moreover have "iteration lib cfg n fa ea h t st 0 w = Some w" by simp
        ultimately show ?thesis using True by blast
      next
        case False
        with vm Inr p have "verify_mon_payment lib cfg n h fa ea w = (Inr (False, err), w1)"
          by simp
        from verify_mon_payment_message [OF this] obtain e where e: "err = Some e" "e \<noteq> []"
          by blast
        show ?thesis
        proof (cases "says_pending e")
          case pending: True
          have "poll lib cfg n fa ea h t st w = poll lib cfg n fa ea h t st (sleep n 2 w1)"
            using True vm Inr p False e pending by (intro poll_retries) auto
          with "1.prems" have "fst (poll lib cfg n fa ea h t st (sleep n 2 w1)) = Inr (True, x)"
            by simp
          moreover have "fst (poll lib cfg n fa ea h t st (sleep n 2 w1)) = Inr (True, x) \<Longrightarrow>
            \<exists>k w'. iteration lib cfg n fa ea h t st k (sleep n 2 w1) = Some w'
                  \<and> int (clock w') - int st < 1000 * t
                  \<and> fst (verify_mon_payment lib cfg n h fa ea w') = Inr (True, None)"
            using True vm Inr p False e pending
            by (intro "1.IH"(2) [of res w1 p valid err e]) auto
          ultimately obtain k w' where
            k: "iteration lib cfg n fa ea h t st k (sleep n 2 w1) = Some w'"
               "int (clock w') - int st < 1000 * t"
               "fst (verify_mon_payment lib cfg n h fa ea w') = Inr (True, None)"
            by blast
          have "iteration lib cfg n fa ea h t st (Suc k) w = Some w'"
            using True vm Inr p False e pending k(1) by simp
          with k(2,3) show ?thesis by blast
        next
          case terminal: False
          have "poll lib cfg n fa ea h t st w = (Inr (False, None), w1)"
            using True vm Inr p False e terminal by (intro poll_rejects [of _ _ _ _ _ _ _ _ _ e]) auto
          with "1.prems" show ?thesis by simp
        qed
      qed
    qed
  qed
qed

lemma poll_accept_complete:
  "iteration lib cfg n fa ea h t st k w = Some w1 \<Longrightarrow>
   int (clock w1) - int st < 1000 * t \<Longrightarrow>
   fst (verify_mon_payment lib cfg n h fa ea w1) = Inr (True, None) \<Longrightarrow>
   fst (poll lib cfg n fa ea h t st w) = Inr (True, Some h)"
proof (induction k arbitrary: w)
  case 0
  then have "w1 = w" by simp
  obtain w2 where "verify_mon_payment lib cfg n h fa ea w = (Inr (True, None), w2)"
    using 0(3) \<open>w1 = w\<close> by (cases "verify_mon_payment lib cfg n h fa ea w") auto
  with 0(2) \<open>w1 = w\<close> show ?case by (simp add: poll_accepts)
next
  case (Suc k)
  from Suc.prems(1) have time: "int (clock w) - int st < 1000 * t"
    by (simp split: if_splits)
  from Suc.prems(1) time obtain e w2 where
    vm: "verify_mon_payment lib cfg n h fa ea w = (Inr (False, Some e), w2)" and
    e: "e \<noteq> []" "says_pending e" and
    it: "iteration lib cfg n fa ea h t st k (sleep n 2 w2) = Some w1"
    by (auto split: prod.splits sum.splits bool.splits option.splits if_splits)
  have "poll lib cfg n fa ea h t st w = poll lib cfg n fa ea h t st (sleep n 2 w2)"
    using time vm e by (rule poll_retries)
  moreover have "fst (poll lib cfg n fa ea h t st (sleep n 2 w2)) = Inr (True, Some h)"
    using it Suc.prems(2,3) by (rule Suc.IH)
  ultimately show ?case by simp
qed

lemma mined_after_transaction:
  "decodes tx \<Longrightarrow> get_transaction (mined_after c tx rc) h w
   = (tx, w\<lparr>requests := requests w @ [(Eth_getTransactionByHash, h)]\<rparr>)"
  by (simp add: get_transaction_reply mined_after_def result_of_def)

lemma mined_after_receipt:
  "decodes rc \<Longrightarrow> get_transaction_receipt (mined_after c tx rc) h w
   = (if length (requests w) < c then Null else rc,
      w\<lparr>requests := requests w @ [(Eth_getTransactionReceipt, h)]\<rparr>)"
  by (simp add: get_transaction_receipt_reply mined_after_def result_of_def)

lemma mined_after_timing:
  "latency (mined_after c tx rc) k = 0" "oversleep (mined_after c tx rc) k = 0"
  by (simp_all add: mined_after_def)

lemma says_pending_pending: "says_pending ''Transaction 0xabc pending or not yet mined''"
  by (simp add: says_pending_def lower_def lower_char_eval)

lemma mined_later_first_attempt:
  "verify_mon_payment lib0 default_config
     (mined_after 3 (Obj (transfer ''0x5'')) (Obj receipt_ok)) ''0xabc'' payer 5
     \<lparr>clock = 0, requests = [], sleeps = []\<rparr>
   = (Inr (False, Some ''Transaction 0xabc pending or not yet mined''),
      \<lparr>clock = 0,
       requests = [(Eth_getTransactionByHash, ''0xabc''), (Eth_getTransactionReceipt, ''0xabc'')],
       sleeps = []\<rparr>)"
proof -
  have t: "present (Obj (transfer ''0x5''))" by (simp add: transfer_members)
  have r: "get_transaction_receipt (mined_after 3 (Obj (transfer ''0x5'')) (Obj receipt_ok))
             ''0xabc''
             (\<lparr>clock = 0, requests = [], sleeps = []\<rparr>
                \<lparr>requests := requests \<lparr>clock = 0, requests = [], sleeps = []\<rparr>
                              @ [(Eth_getTransactionByHash, ''0xabc'')]\<rparr>)
           = (Null, \<lparr>clock = 0,
                requests = [(Eth_getTransactionByHash, ''0xabc''),
                            (Eth_getTransactionReceipt, ''0xabc'')],
                sleeps = []\<rparr>)"
    by (simp add: mined_after_receipt fixture_decodes)
  have "\<not> present Null" by simp
  from verify_mon_payment_pending [where a = 5, OF normalize_payer
      mined_after_transaction [OF fixture_decodes(1)] t r this]
  show ?thesis by simp
qed

lemma mined_later_second_attempt:
  "verify_mon_payment lib0 default_config
     (mined_after 3 (Obj (transfer ''0x5'')) (Obj receipt_ok)) ''0xabc'' payer 5
     \<lparr>clock = 2000,
      requests = [(Eth_getTransactionByHash, ''0xabc''), (Eth_getTransactionReceipt, ''0xabc'')],
      sleeps = [2]\<rparr>
   = (Inr (True, None),
      \<lparr>clock = 2000,
       requests = [(Eth_getTransactionByHash, ''0xabc''), (Eth_getTransactionReceipt, ''0xabc''),
                   (Eth_getTransactionByHash, ''0xabc''), (Eth_getTransactionReceipt, ''0xabc'')],
       sleeps = [2]\<rparr>)"
proof -
  let ?w = "\<lparr>clock = 2000,
      requests = [(Eth_getTransactionByHash, ''0xabc''), (Eth_getTransactionReceipt, ''0xabc'')],
      sleeps = [2]\<rparr>"
  have t: "present (Obj (transfer ''0x5''))" by (simp add: transfer_members)
  have r: "get_transaction_receipt (mined_after 3 (Obj (transfer ''0x5'')) (Obj receipt_ok))
             ''0xabc'' (?w\<lparr>requests := requests ?w @ [(Eth_getTransactionByHash, ''0xabc'')]\<rparr>)
           = (Obj receipt_ok, \<lparr>clock = 2000,
       requests = [(Eth_getTransactionByHash, ''0xabc''), (Eth_getTransactionReceipt, ''0xabc''),
                   (Eth_getTransactionByHash, ''0xabc''), (Eth_getTransactionReceipt, ''0xabc'')],
       sleeps = [2]\<rparr>)"
    by (simp add: mined_after_receipt fixture_decodes)
  from verify_mon_payment_to_sender [where a = 5, OF normalize_payer
      mined_after_transaction [OF fixture_decodes(1)] t r
      receipt_ok_status(1)]
  show ?thesis by (simp add: transfer_five_accepted)
qed

lemma poll_follows:
  "iteration lib cfg n fa ea h t st k w = Some w1 \<Longrightarrow>
   poll lib cfg n fa ea h t st w = poll lib cfg n fa ea h t st w1"
proof (induction k arbitrary: w)
  case 0
  then show ?case by simp
next
  case (Suc k)
  from Suc.prems have time: "int (clock w) - int st < 1000 * t"
    by (simp split: if_splits)
  from Suc.prems time obtain e w2 where
    vm: "verify_mon_payment lib cfg n h fa ea w = (Inr (False, Some e), w2)" and
    e: "e \<noteq> []" "says_pending e" and
    it: "iteration lib cfg n fa ea h t st k (sleep n 2 w2) = Some w1"
    by (auto split: prod.splits sum.splits bool.splits option.splits if_splits)
  have "poll lib cfg n fa ea h t st w = poll lib cfg n fa ea h t st (sleep n 2 w2)"
    using time vm e by (rule poll_retries)
  also have "\<dots> = poll lib cfg n fa ea h t st w1"
    using it by (rule Suc.IH)
  finally show ?case .
qed

lemma says_pending_too_low: "\<not> says_pending ''Amount too low: expected 5, got 3''"
  by (simp add: says_pending_def lower_def lower_char_eval)

lemma steady_transfer_short:
  "verify_mon_payment lib0 default_config
     (steady_node (Obj (transfer ''0x3'')) (Obj receipt_ok)) h payer 5 w
   = (Inr (False, Some ''Amount too low: expected 5, got 3''),
      w\<lparr>requests := requests w @ [(Eth_getTransactionByHash, h),
                                     (Eth_getTransactionReceipt, h)]\<rparr>)"
proof -
  from verify_mon_payment_to_value [where a = 5, OF normalize_payer
      steady_node_transaction [OF fixture_decodes(1)]
      steady_node_receipt [OF fixture_decodes(5)] receipt_ok_status(1)
      transfer_sender transfer_has_recipient transfer_recipient]
  show ?thesis
    by (simp add: check_value_decoded [OF transfer_value_three] fstring2_def str_int_small)
qed

section \<open>Where the two defects do and do not bite\<close>

lemma missing_sender_raises:
  assumes "normalize_addresses lib cfg s = Inr (s', r)"
    and "get_transaction n h w = (Obj tx, w1)" and "tx \<noteq> []"
    and "get_transaction_receipt n h w1 = (Obj rd, w2)"
    and "dict_get rd ''status'' PNone = PStr ''0x1''"
    and "map_of tx ''from'' = None"
  shows "verify_mon_payment lib cfg n h s a w = (Inl ValueError, w2)"
proof -
  have "present (Obj tx)" using assms(3) by simp
  from verify_mon_payment_to_sender [OF assms(1,2) this assms(4,5)]
  show ?thesis using assms(6) by (simp add: check_sender_def dict_get_def checksum_empty)
qed

lemma starts_with_set: "starts_with p s \<Longrightarrow> set p \<subseteq> set s"
  by (induction p s rule: starts_with.induct) auto

lemma contains_set: "contains p s \<Longrightarrow> set p \<subseteq> set s"
proof (induction s)
  case Nil
  then show ?case by simp
next
  case (Cons c cs)
  from Cons.prems have "starts_with p (c # cs) \<or> contains p cs" by simp
  then show ?case
  proof
    assume "starts_with p (c # cs)"
    then show ?thesis by (rule starts_with_set)
  next
    assume "contains p cs"
    then have "set p \<subseteq> set cs" by (rule Cons.IH)
    then show ?thesis by auto
  qed
qed

lemma lower_char_p: "lower_char c = CHR ''p'' \<Longrightarrow> c = CHR ''p'' \<or> c = CHR ''P''"
  by (auto simp: lower_char_def latin_upper_def latin_lower_def split: if_splits)

lemma lower_char_y: "lower_char c = CHR ''y'' \<Longrightarrow> c = CHR ''y'' \<or> c = CHR ''Y''"
  by (auto simp: lower_char_def latin_upper_def latin_lower_def split: if_splits)

lemma says_pending_letters:
  assumes "says_pending e"
  shows "CHR ''p'' \<in> set e \<or> CHR ''P'' \<in> set e \<or> CHR ''y'' \<in> set e \<or> CHR ''Y'' \<in> set e"
proof -
  from assms have "CHR ''p'' \<in> set (lower e) \<or> CHR ''y'' \<in> set (lower e)"
    by (auto simp: says_pending_def dest!: contains_set)
  then obtain c where "c \<in> set e" "lower_char c = CHR ''p'' \<or> lower_char c = CHR ''y''"
    by (auto simp: lower_def)
  then show ?thesis
    using lower_char_p [of c] lower_char_y [of c] by auto
qed

lemma not_found_is_terminal:
  assumes "set h \<inter> set ''pPyY'' = {}"
    and "int (clock w) - int st < 1000 * t"
    and "normalize_addresses lib cfg s = Inr p"
    and "get_transaction n h w = (tx, w1)" and "\<not> present tx"
  shows "poll lib cfg n s a h t st w = (Inr (False, None), w1)"
    and "sleeps w1 = sleeps w"
    and "requests w1 = requests w @ [(Eth_getTransactionByHash, h)]"
proof -
  have vm: "verify_mon_payment lib cfg n h s a w
            = (Inr (False, Some (''Transaction '' @ h @ '' not found on chain'')), w1)"
    using assms(3-5) by (rule verify_mon_payment_not_found)
  have "\<not> says_pending (''Transaction '' @ h @ '' not found on chain'')"
    using assms(1) by (auto dest!: says_pending_letters)
  with assms(2) vm show "poll lib cfg n s a h t st w = (Inr (False, None), w1)"
    by (rule poll_rejects)
  show "sleeps w1 = sleeps w" using vm by (rule verify_mon_payment_sleeps)
  show "requests w1 = requests w @ [(Eth_getTransactionByHash, h)]"
    using assms(4) by (auto simp: get_transaction_reply)
qed

section \<open>Clause 7: the amount\<close>

text \<open>
  C1, as amended. For every transaction that passes clauses 1 to 6 (both addresses
  normalise, the node returns the record, the receipt's status is \<^verbatim>\<open>"0x1"\<close>, the sender
  matches, the recipient is there and matches) and whose \<^verbatim>\<open>value\<close> member decodes to
  \<open>v\<close>: \<^verbatim>\<open>verify_mon_payment\<close> accepts if and only if \<open>v\<close> is at least the expected amount
  and the chain clause holds (the \<^verbatim>\<open>chainId\<close> member is absent or falsy, or decodes to the
  configured chain id); and when \<open>v\<close> is below the expected amount, and both amounts
  are integers that \<^verbatim>\<open>str\<close> prints (at most 4300 digits), it rejects with the
  amount-too-low message.
\<close>

theorem C1_accepts_iff_value_and_chain:
  assumes "normalize_addresses lib cfg s = Inr (s', r)"
    and "get_transaction n h w = (Obj tx, w1)"
    and "get_transaction_receipt n h w1 = (Obj rd, w2)"
    and "dict_get rd ''status'' PNone = PStr ''0x1''"
    and "to_checksum_address lib (dict_get tx ''from'' (PStr [])) = Inr s'"
    and "truthy (dict_get tx ''to'' PNone)"
    and "to_checksum_address lib (dict_get tx ''to'' PNone) = Inr r"
    and "int16 (dict_get tx ''value'' (PStr ''0x0'')) = Inr v"
  shows "(fst (verify_mon_payment lib cfg n h s a w) = Inr (True, None) \<longleftrightarrow>
            a \<le> v \<and> (\<not> truthy (dict_get tx ''chainId'' PNone)
                       \<or> int16 (dict_get tx ''chainId'' PNone) = Inr CHAIN_ID))
       \<and> (v < a \<and> str_int a = Inr ta \<and> str_int v = Inr tv
            \<longrightarrow> verify_mon_payment lib cfg n h s a w
                = (Inr (False, Some (''Amount too low: expected '' @ ta @ '', got '' @ tv)), w2))"
proof -
  have "verify_mon_payment lib cfg n h s a w = (check_value a tx, w2)"
    using assms(1-7) by (rule verify_mon_payment_to_value)
  then show ?thesis
    using assms(8)
    by (auto simp: check_value_decoded check_chain_accepts fstring2_def split: sum.splits)
qed

theorem C1_witness:
  "fst (verify_mon_payment lib0 default_config
          (steady_node (Obj (transfer ''0x5'')) (Obj receipt_ok)) ''0xabc'' payer 5 w0)
     = Inr (True, None)
   \<and> fst (verify_mon_payment lib0 default_config
          (steady_node (Obj (transfer ''0x3'')) (Obj receipt_ok)) ''0xabc'' payer 5 w0)
     = Inr (False, Some ''Amount too low: expected 5, got 3'')"
proof -
  note exact = C1_accepts_iff_value_and_chain [where h = "''0xabc''" and w = w0 and a = 5
      and ta = "''5''" and tv = "''5''"
      and n = "steady_node (Obj (transfer ''0x5'')) (Obj receipt_ok)",
      OF normalize_payer steady_node_transaction [OF fixture_decodes(1)]
         steady_node_receipt [OF fixture_decodes(5)] receipt_ok_status(1)
         transfer_sender transfer_has_recipient transfer_recipient transfer_value_five]
  note short = C1_accepts_iff_value_and_chain [where h = "''0xabc''" and w = w0 and a = 5
      and ta = "''5''" and tv = "''3''"
      and n = "steady_node (Obj (transfer ''0x3'')) (Obj receipt_ok)",
      OF normalize_payer steady_node_transaction [OF fixture_decodes(1)]
         steady_node_receipt [OF fixture_decodes(5)] receipt_ok_status(1)
         transfer_sender transfer_has_recipient transfer_recipient transfer_value_three]
  show ?thesis
    using exact short by (simp add: transfer_members str_int_small)
qed

text \<open>
  The claim as first stated, that passing clauses 1 to 6 with a sufficient value is enough
  to be accepted, fails: the record below passes clauses 1 to 6, carries exactly the
  expected amount, and is rejected by the chain clause.
\<close>

theorem C1_counterexample_wrong_chain:
  "normalize_addresses lib0 default_config payer
     = Inr (''0x00000000000000000000000000000000000000AA'',
            ''0x0000000000000000000000000000000000000001'')
   \<and> fst (get_transaction
            (steady_node (Obj (with_chain ''0x1'' (transfer ''0x5''))) (Obj receipt_ok))
            ''0xabc'' w0)
       = Obj (with_chain ''0x1'' (transfer ''0x5''))
   \<and> fst (get_transaction_receipt
            (steady_node (Obj (with_chain ''0x1'' (transfer ''0x5''))) (Obj receipt_ok))
            ''0xabc'' (w0\<lparr>requests := [(Eth_getTransactionByHash, ''0xabc'')]\<rparr>))
       = Obj receipt_ok
   \<and> dict_get receipt_ok ''status'' PNone = PStr ''0x1''
   \<and> to_checksum_address lib0
        (dict_get (with_chain ''0x1'' (transfer ''0x5'')) ''from'' (PStr []))
       = Inr ''0x00000000000000000000000000000000000000AA''
   \<and> truthy (dict_get (with_chain ''0x1'' (transfer ''0x5'')) ''to'' PNone)
   \<and> to_checksum_address lib0 (dict_get (with_chain ''0x1'' (transfer ''0x5'')) ''to'' PNone)
       = Inr ''0x0000000000000000000000000000000000000001''
   \<and> int16 (dict_get (with_chain ''0x1'' (transfer ''0x5'')) ''value'' (PStr ''0x0'')) = Inr 5
   \<and> (5::int) \<le> 5
   \<and> fst (verify_mon_payment lib0 default_config
            (steady_node (Obj (with_chain ''0x1'' (transfer ''0x5''))) (Obj receipt_ok))
            ''0xabc'' payer 5 w0)
       = Inr (False, Some ''Wrong chain: expected 10143, got 1'')"
proof -
  have "verify_mon_payment lib0 default_config
          (steady_node (Obj (with_chain ''0x1'' (transfer ''0x5''))) (Obj receipt_ok))
          ''0xabc'' payer 5 w0
        = (check_value 5 (with_chain ''0x1'' (transfer ''0x5'')),
           w0\<lparr>requests := [(Eth_getTransactionByHash, ''0xabc''),
                              (Eth_getTransactionReceipt, ''0xabc'')]\<rparr>)"
    using verify_mon_payment_to_value [where a = 5 and h = "''0xabc''" and w = w0
        and n = "steady_node (Obj (with_chain ''0x1'' (transfer ''0x5''))) (Obj receipt_ok)",
        OF normalize_payer steady_node_transaction [OF fixture_decodes(2)]
           steady_node_receipt [OF fixture_decodes(5)] receipt_ok_status(1)
           foreign_sender foreign_has_recipient foreign_recipient]
    by (simp add: w0_def)
  moreover have "check_value 5 (with_chain ''0x1'' (transfer ''0x5''))
                 = Inr (False, Some ''Wrong chain: expected 10143, got 1'')"
    by (simp add: check_value_def check_chain_def with_chain_members int16_five int16_one
                  str_int_small fstring2_def CHAIN_ID_def)
  ultimately show ?thesis
    by (simp add: normalize_payer steady_node_transaction steady_node_receipt fixture_decodes
                  receipt_ok_status with_chain_members int16_five checksum_payer
                  checksum_recipient recipient_not_empty)
qed

section \<open>Faults reaching the caller\<close>

text \<open>
  C2 claims that the entry points never raise, whatever the node answers. The code
  guards only the normalisation of the expected sender and of the recipient (lines
  100--104); the normalisation of the record's own \<^verbatim>\<open>from\<close> member (line 124) is outside
  any \<^verbatim>\<open>try\<close>. For a mined transaction whose record has no \<^verbatim>\<open>from\<close> member the default
  \<^verbatim>\<open>""\<close> is normalised, which raises, and the exception leaves
  \<^verbatim>\<open>verify_mon_payment\<close>, \<^verbatim>\<open>PaymentVerifier.verify_payment\<close> and
  \<^verbatim>\<open>evm_verify.verify_payment\<close> alike.
\<close>

theorem C2_missing_sender_raises:
  "fst (verify_mon_payment lib0 default_config
          (steady_node (Obj (senderless ''0x5'')) (Obj receipt_ok)) ''0xabc'' payer 5 w0)
     = Inl ValueError
   \<and> fst (PaymentVerifier_verify_payment lib0 default_config
          (steady_node (Obj (senderless ''0x5'')) (Obj receipt_ok)) payer 5 (Some ''0xabc'') 30 w0)
     = Inl ValueError
   \<and> fst (verify_payment lib0 default_config
          (steady_node (Obj (senderless ''0x5'')) (Obj receipt_ok)) ''0xabc'' payer 5 w0)
     = Inl ValueError"
proof -
  have "int (clock w0) - int (clock w0) < 1000 * 30" by simp
  from poll_raises [OF this senderless_raises]
  have "fst (PaymentVerifier_verify_payment lib0 default_config
          (steady_node (Obj (senderless ''0x5'')) (Obj receipt_ok)) payer 5 (Some ''0xabc'') 30 w0)
        = Inl ValueError"
    by (simp add: PaymentVerifier_verify_payment_def)
  then show ?thesis
    by (simp add: senderless_raises verify_payment_def)
qed

section \<open>Terminal rejections in the polling loop\<close>

text \<open>
  C3 claims that every rejection other than the pending one ends the loop at once. The
  loop tells the pending rejection from the others by looking for \<^verbatim>\<open>pending\<close> or
  \<^verbatim>\<open>not yet mined\<close> in the lower-cased message (line 86), and the not-found message
  quotes the caller's transaction hash. For the hash \<^verbatim>\<open>pending\<close>, which the node does
  not know, every attempt is rejected as not found, and the loop sleeps and retries until
  the timeout: fifteen requests and fifteen sleeps for the default thirty seconds.
\<close>

theorem C3_not_found_retried:
  "fst (verify_mon_payment lib0 default_config (steady_node Null Null) ''pending'' payer 5 w0)
     = Inr (False, Some ''Transaction pending not found on chain'')
   \<and> fst (PaymentVerifier_verify_payment lib0 default_config (steady_node Null Null) payer 5
            (Some ''pending'') 30 w0)
     = Inr (False, None)
   \<and> length (sleeps (snd (PaymentVerifier_verify_payment lib0 default_config
        (steady_node Null Null) payer 5 (Some ''pending'') 30 w0))) = 15
   \<and> length (requests (snd (PaymentVerifier_verify_payment lib0 default_config
        (steady_node Null Null) payer 5 (Some ''pending'') 30 w0))) = 15
   \<and> clock (snd (PaymentVerifier_verify_payment lib0 default_config
        (steady_node Null Null) payer 5 (Some ''pending'') 30 w0)) = 30000"
proof -
  have "poll lib0 default_config (steady_node Null Null) payer 5 ''pending'' 30 0
          \<lparr>clock = 0, requests = [], sleeps = []\<rparr>
        = (Inr (False, None),
           \<lparr>clock = 30000,
            requests = [(Eth_getTransactionByHash, ''pending''), (Eth_getTransactionByHash,
                        ''pending''), (Eth_getTransactionByHash, ''pending''),
                        (Eth_getTransactionByHash, ''pending''), (Eth_getTransactionByHash,
                        ''pending''), (Eth_getTransactionByHash, ''pending''),
                        (Eth_getTransactionByHash, ''pending''), (Eth_getTransactionByHash,
                        ''pending''), (Eth_getTransactionByHash, ''pending''),
                        (Eth_getTransactionByHash, ''pending''), (Eth_getTransactionByHash,
                        ''pending''), (Eth_getTransactionByHash, ''pending''),
                        (Eth_getTransactionByHash, ''pending''), (Eth_getTransactionByHash,
                        ''pending''), (Eth_getTransactionByHash, ''pending'')],
            sleeps = [2, 2, 2, 2, 2, 2, 2, 2, 2, 2, 2, 2, 2, 2, 2]\<rparr>)"
    by (simp add: unknown_hash_round poll_timed_out)
  then show ?thesis
    by (simp add: PaymentVerifier_verify_payment_def unknown_hash_attempt w0_def)
qed

section \<open>Clause 8: the chain identifier\<close>



section \<open>Clause 4: the receipt status\<close>

text \<open>
  C5. For every receipt the node returns (a non-empty object, so that clause 3 passes),
  \<^verbatim>\<open>verify_mon_payment\<close> rejects with the transaction-failed message exactly when the
  \<^verbatim>\<open>status\<close> member is anything but the string \<^verbatim>\<open>"0x1"\<close>, an absent member included
  (it reads as \<^verbatim>\<open>None\<close>); with \<^verbatim>\<open>"0x1"\<close> the status counts as success and the verdict
  is that of the clauses that follow.
\<close>

theorem C5_status_clause:
  assumes "normalize_addresses lib cfg s = Inr (s', r)"
    and "get_transaction n h w = (tx, w1)" and "present tx"
    and "get_transaction_receipt n h w1 = (Obj rd, w2)" and "rd \<noteq> []"
  shows "(verify_mon_payment lib cfg n h s a w
            = (Inr (False, Some (''Transaction '' @ h @ '' failed (status: ''
                                 @ py_str (dict_get rd ''status'' PNone) @ '')'')), w2)
          \<longleftrightarrow> dict_get rd ''status'' PNone \<noteq> PStr ''0x1'')
       \<and> (dict_get rd ''status'' PNone = PStr ''0x1''
            \<longrightarrow> verify_mon_payment lib cfg n h s a w = (check_sender lib s' r a tx, w2))"
proof -
  have stage: "verify_mon_payment lib cfg n h s a w = (check_status lib h s' r a tx (Obj rd), w2)"
    using assms by (intro verify_mon_payment_checked) auto
  show ?thesis
  proof (cases "dict_get rd ''status'' PNone = PStr ''0x1''")
    case True
    have "check_sender lib s' r a tx
          \<noteq> Inr (False, Some (''Transaction '' @ h @ '' failed (status: '' @ ''0x1'' @ '')''))"
      by (rule check_sender_not_failed) simp_all
    with True stage show ?thesis by (simp add: check_status_success)
  next
    case False
    with stage show ?thesis by (simp add: check_status_failed)
  qed
qed

theorem C5_witness:
  "verify_mon_payment lib0 default_config
     (steady_node (Obj (transfer ''0x5'')) (Obj receipt_failed)) ''0xabc'' payer 5 w0
   = (Inr (False, Some ''Transaction 0xabc failed (status: 0x0)''),
      w0\<lparr>requests := [(Eth_getTransactionByHash, ''0xabc''),
                         (Eth_getTransactionReceipt, ''0xabc'')]\<rparr>)
   \<and> verify_mon_payment lib0 default_config
     (steady_node (Obj (transfer ''0x5'')) (Obj receipt_no_status)) ''0xabc'' payer 5 w0
   = (Inr (False, Some ''Transaction 0xabc failed (status: None)''),
      w0\<lparr>requests := [(Eth_getTransactionByHash, ''0xabc''),
                         (Eth_getTransactionReceipt, ''0xabc'')]\<rparr>)
   \<and> verify_mon_payment lib0 default_config
     (steady_node (Obj (transfer ''0x5'')) (Obj receipt_ok)) ''0xabc'' payer 5 w0
   = (Inr (True, None),
      w0\<lparr>requests := [(Eth_getTransactionByHash, ''0xabc''),
                         (Eth_getTransactionReceipt, ''0xabc'')]\<rparr>)"
proof -
  have there: "present (Obj (transfer ''0x5''))"
    by (simp add: transfer_members)
  note failed = C5_status_clause [where h = "''0xabc''" and w = w0 and a = 5
      and n = "steady_node (Obj (transfer ''0x5'')) (Obj receipt_failed)",
      OF normalize_payer steady_node_transaction [OF fixture_decodes(1)] there
         steady_node_receipt [OF fixture_decodes(6)]
         receipt_failed_status(2)]
  note absent = C5_status_clause [where h = "''0xabc''" and w = w0 and a = 5
      and n = "steady_node (Obj (transfer ''0x5'')) (Obj receipt_no_status)",
      OF normalize_payer steady_node_transaction [OF fixture_decodes(1)] there
         steady_node_receipt [OF fixture_decodes(7)]
         receipt_no_status_status(2)]
  note success = C5_status_clause [where h = "''0xabc''" and w = w0 and a = 5
      and n = "steady_node (Obj (transfer ''0x5'')) (Obj receipt_ok)",
      OF normalize_payer steady_node_transaction [OF fixture_decodes(1)] there
         steady_node_receipt [OF fixture_decodes(5)]
         receipt_ok_status(2)]
  show ?thesis
    using failed absent success
    by (simp add: receipt_failed_status receipt_no_status_status receipt_ok_status
                  transfer_five_accepted w0_def)
qed

section \<open>Clause 6: contract creation\<close>

text \<open>
  C6. For every transaction whose record has no \<^verbatim>\<open>to\<close> member, whose receipt shows
  success and whose sender matches, \<^verbatim>\<open>verify_mon_payment\<close> returns \<open>False\<close> with the
  no-recipient message, whatever the expected amount and the value are.
\<close>

theorem C6_contract_creation_rejected:
  assumes "normalize_addresses lib cfg s = Inr (s', r)"
    and "get_transaction n h w = (Obj tx, w1)"
    and "get_transaction_receipt n h w1 = (Obj rd, w2)"
    and "dict_get rd ''status'' PNone = PStr ''0x1''"
    and "to_checksum_address lib (dict_get tx ''from'' (PStr [])) = Inr s'"
    and "map_of tx ''to'' = None"
  shows "verify_mon_payment lib cfg n h s a w
         = (Inr (False, Some ''Transaction has no recipient (contract creation?)''), w2)"
proof -
  have "verify_mon_payment lib cfg n h s a w = (check_recipient lib r a tx, w2)"
    using assms(1-5) by (rule verify_mon_payment_to_recipient)
  then show ?thesis
    using assms(6) by (simp add: check_recipient_def dict_get_def)
qed

theorem C6_witness:
  "verify_mon_payment lib0 default_config
     (steady_node (Obj (creation ''0x5'')) (Obj receipt_ok)) ''0xabc'' payer 5 w0
   = (Inr (False, Some ''Transaction has no recipient (contract creation?)''),
      w0\<lparr>requests := [(Eth_getTransactionByHash, ''0xabc''),
                         (Eth_getTransactionReceipt, ''0xabc'')]\<rparr>)
   \<and> verify_mon_payment lib0 default_config
     (steady_node (Obj (creation ''0x3'')) (Obj receipt_ok)) ''0xabc'' payer 5 w0
   = (Inr (False, Some ''Transaction has no recipient (contract creation?)''),
      w0\<lparr>requests := [(Eth_getTransactionByHash, ''0xabc''),
                         (Eth_getTransactionReceipt, ''0xabc'')]\<rparr>)"
proof -
  have sender: "to_checksum_address lib0 (dict_get (creation v) ''from'' (PStr []))
                = Inr ''0x00000000000000000000000000000000000000AA''" for v
    by (simp add: creation_members checksum_payer)
  note enough = C6_contract_creation_rejected [where h = "''0xabc''" and w = w0 and a = 5
      and n = "steady_node (Obj (creation ''0x5'')) (Obj receipt_ok)",
      OF normalize_payer steady_node_transaction [OF fixture_decodes(3)]
         steady_node_receipt [OF fixture_decodes(5)] receipt_ok_status(1)
         sender creation_members(3)]
  note short = C6_contract_creation_rejected [where h = "''0xabc''" and w = w0 and a = 5
      and n = "steady_node (Obj (creation ''0x3'')) (Obj receipt_ok)",
      OF normalize_payer steady_node_transaction [OF fixture_decodes(3)]
         steady_node_receipt [OF fixture_decodes(5)] receipt_ok_status(1)
         sender creation_members(3)]
  show ?thesis
    using enough short by (simp add: w0_def)
qed

section \<open>The verdict of the one-shot entry point\<close>

text \<open>
  C7, as amended. Whenever \<^verbatim>\<open>evm_verify.verify_payment\<close> produces a verified verdict,
  every clause of the acceptance rule held for the transaction and the receipt that the
  one call of \<^verbatim>\<open>verify_mon_payment\<close> fetched (the replies to two consecutive requests
  for the same hash); the record put in the verdict is the reply to a third request for
  that hash, posted after the rule has accepted.
\<close>

theorem C7_verified_verdict:
  assumes "verify_payment lib cfg n h s a w = (Inr v, w')" and "verified v"
  shows "\<exists>s' r tx rd val.
           normalize_addresses lib cfg s = Inr (s', r)
         \<and> result_of (respond n (length (requests w)) Eth_getTransactionByHash h) = Obj tx
         \<and> result_of (respond n (Suc (length (requests w))) Eth_getTransactionReceipt h) = Obj rd
         \<and> dict_get rd ''status'' PNone = PStr ''0x1''
         \<and> to_checksum_address lib (dict_get tx ''from'' (PStr [])) = Inr s'
         \<and> truthy (dict_get tx ''to'' PNone)
         \<and> to_checksum_address lib (dict_get tx ''to'' PNone) = Inr r
         \<and> int16 (dict_get tx ''value'' (PStr ''0x0'')) = Inr val \<and> a \<le> val
         \<and> (\<not> truthy (dict_get tx ''chainId'' PNone)
              \<or> int16 (dict_get tx ''chainId'' PNone) = Inr CHAIN_ID)
         \<and> tx_hash_of v = h \<and> error v = None
         \<and> tx_info v
             = result_of (respond n (Suc (Suc (length (requests w)))) Eth_getTransactionByHash h)
         \<and> requests w'
             = requests w @ [(Eth_getTransactionByHash, h), (Eth_getTransactionReceipt, h),
                             (Eth_getTransactionByHash, h)]"
proof -
  obtain res w2 where vm: "verify_mon_payment lib cfg n h s a w = (res, w2)" by fastforce
  with assms obtain e where acc: "res = Inr (True, e)"
    by (cases res) (auto simp: verify_payment_def split: if_splits)
  from vm acc have vm': "verify_mon_payment lib cfg n h s a w = (Inr (True, e), w2)" by simp
  note cl = verify_mon_payment_clauses [OF vm']
  then have rq: "requests w2
      = requests w @ [(Eth_getTransactionByHash, h), (Eth_getTransactionReceipt, h)]" by blast
  have "tx_hash_of v = h \<and> error v = None
        \<and> tx_info v = result_of (respond n (length (requests w2)) Eth_getTransactionByHash h)
        \<and> requests w' = requests w2 @ [(Eth_getTransactionByHash, h)]"
    using assms(1) vm' by (auto simp: verify_payment_def get_transaction_reply)
  with rq have "tx_hash_of v = h \<and> error v = None
        \<and> tx_info v
            = result_of (respond n (Suc (Suc (length (requests w)))) Eth_getTransactionByHash h)
        \<and> requests w'
            = requests w @ [(Eth_getTransactionByHash, h), (Eth_getTransactionReceipt, h),
                            (Eth_getTransactionByHash, h)]"
    by simp
  with cl show ?thesis by blast
qed

theorem C7_witness:
  "\<exists>s' r tx rd val.
           normalize_addresses lib0 default_config payer = Inr (s', r)
         \<and> result_of (respond (steady_node (Obj (transfer ''0x5'')) (Obj receipt_ok))
              (length (requests w0)) Eth_getTransactionByHash ''0xabc'') = Obj tx
         \<and> result_of (respond (steady_node (Obj (transfer ''0x5'')) (Obj receipt_ok))
              (Suc (length (requests w0))) Eth_getTransactionReceipt ''0xabc'') = Obj rd
         \<and> dict_get rd ''status'' PNone = PStr ''0x1''
         \<and> to_checksum_address lib0 (dict_get tx ''from'' (PStr [])) = Inr s'
         \<and> truthy (dict_get tx ''to'' PNone)
         \<and> to_checksum_address lib0 (dict_get tx ''to'' PNone) = Inr r
         \<and> int16 (dict_get tx ''value'' (PStr ''0x0'')) = Inr val \<and> 5 \<le> val
         \<and> (\<not> truthy (dict_get tx ''chainId'' PNone)
              \<or> int16 (dict_get tx ''chainId'' PNone) = Inr CHAIN_ID)
         \<and> tx_hash_of \<lparr>verified = True, tx_hash_of = ''0xabc'', error = None,
                        tx_info = Obj (transfer ''0x5'')\<rparr> = ''0xabc''
         \<and> error \<lparr>verified = True, tx_hash_of = ''0xabc'', error = None,
                   tx_info = Obj (transfer ''0x5'')\<rparr> = None
         \<and> tx_info \<lparr>verified = True, tx_hash_of = ''0xabc'', error = None,
                     tx_info = Obj (transfer ''0x5'')\<rparr>
             = result_of (respond (steady_node (Obj (transfer ''0x5'')) (Obj receipt_ok))
                 (Suc (Suc (length (requests w0)))) Eth_getTransactionByHash ''0xabc'')
         \<and> requests (w0\<lparr>requests := [(Eth_getTransactionByHash, ''0xabc''),
                                     (Eth_getTransactionReceipt, ''0xabc''),
                                     (Eth_getTransactionByHash, ''0xabc'')]\<rparr>)
             = requests w0 @ [(Eth_getTransactionByHash, ''0xabc''),
                              (Eth_getTransactionReceipt, ''0xabc''),
                              (Eth_getTransactionByHash, ''0xabc'')]"
proof -
  have run: "verify_payment lib0 default_config
               (steady_node (Obj (transfer ''0x5'')) (Obj receipt_ok)) ''0xabc'' payer 5 w0
             = (Inr \<lparr>verified = True, tx_hash_of = ''0xabc'', error = None,
                     tx_info = Obj (transfer ''0x5'')\<rparr>,
                w0\<lparr>requests := [(Eth_getTransactionByHash, ''0xabc''),
                                   (Eth_getTransactionReceipt, ''0xabc''),
                                   (Eth_getTransactionByHash, ''0xabc'')]\<rparr>)"
    by (simp add: verify_payment_def steady_transfer_accepted steady_node_transaction
                  fixture_decodes w0_def)
  have ok: "verified \<lparr>verified = True, tx_hash_of = ''0xabc'', error = None,
                      tx_info = Obj (transfer ''0x5'')\<rparr>"
    by simp
  show ?thesis by (rule C7_verified_verdict [OF run ok])
qed

text \<open>
  The claim as first stated, that the record in the verdict is the record that satisfied
  the clauses and comes from no separate later fetch, fails: the node below answers the
  two requests of the rule and the third request fails in transport, so the verdict is
  verified and carries no record.
\<close>

theorem C7_counterexample_refetch:
  "fst (verify_payment lib0 default_config
          (failing_after 2 (Obj (transfer ''0x5'')) (Obj receipt_ok)) ''0xabc'' payer 5 w0)
     = Inr \<lparr>verified = True, tx_hash_of = ''0xabc'', error = None, tx_info = Null\<rparr>
   \<and> fst (get_transaction (failing_after 2 (Obj (transfer ''0x5'')) (Obj receipt_ok))
            ''0xabc'' w0)
     = Obj (transfer ''0x5'')
   \<and> Obj (transfer ''0x5'') \<noteq> Null"
  by (simp add: verify_payment_def dropped_transfer_accepted failing_after_transaction
                fixture_decodes w0_fields)

section \<open>Casing of the expected sender\<close>

text \<open>
  C8. For every two expected-sender inputs that denote the same address and differ only
  in the casing of their letters (they are equal once lower-cased, and one of them, hence
  both, normalises), \<^verbatim>\<open>verify_mon_payment\<close> gives the same verdict, the same message and
  leaves the same world, on the same node.
\<close>

theorem C8_sender_case_insensitive:
  assumes "lower a = lower b" and "to_checksum_address lib (PStr a) = Inr x"
  shows "verify_mon_payment lib cfg n h a amount w = verify_mon_payment lib cfg n h b amount w"
proof -
  have "to_normalized_address (PStr a) = to_normalized_address (PStr b)"
    using assms(1) by (simp add: to_normalized_address_def)
  then have same: "to_checksum_address lib (PStr b) = to_checksum_address lib (PStr a)"
    by (simp add: to_checksum_address_def)
  have "normalize_addresses lib cfg a = normalize_addresses lib cfg b"
    using assms(2) same by (simp add: normalize_addresses_def)
  then show ?thesis by (simp add: verify_mon_payment_def)
qed

theorem C8_witness:
  "lower payer = lower payer_upper
   \<and> verify_mon_payment lib0 default_config
       (steady_node (Obj (transfer ''0x5'')) (Obj receipt_ok)) ''0xabc'' payer 5 w0
     = verify_mon_payment lib0 default_config
       (steady_node (Obj (transfer ''0x5'')) (Obj receipt_ok)) ''0xabc'' payer_upper 5 w0
   \<and> fst (verify_mon_payment lib0 default_config
       (steady_node (Obj (transfer ''0x5'')) (Obj receipt_ok)) ''0xabc'' payer_upper 5 w0)
     = Inr (True, None)"
proof -
  have same: "lower payer = lower payer_upper"
    by (simp add: lower_def lower_char_eval payer_def payer_upper_def)
  note eq = C8_sender_case_insensitive [where cfg = default_config and h = "''0xabc''"
      and amount = 5 and w = w0
      and n = "steady_node (Obj (transfer ''0x5'')) (Obj receipt_ok)",
      OF same checksum_payer]
  have "fst (verify_mon_payment lib0 default_config
          (steady_node (Obj (transfer ''0x5'')) (Obj receipt_ok)) ''0xabc'' payer_upper 5 w0)
        = Inr (True, None)"
    using eq [symmetric] by (simp add: steady_transfer_accepted)
  with same eq show ?thesis by simp
qed

section \<open>The result of the polling entry point\<close>

text \<open>
  C9. Whenever \<^verbatim>\<open>PaymentVerifier.verify_payment\<close> returns, it returns either \<open>True\<close>
  with the transaction hash it was given or \<open>False\<close> with \<open>None\<close>, never a hash beside
  \<open>False\<close>. It returns \<open>True\<close> with the hash exactly when the hash is not empty and the
  acceptance rule accepts in a round that the loop starts before the timeout has elapsed,
  every earlier round having found the payment pending. When, after rounds that found
  the payment pending, a round started in time is rejected with a message the loop does
  not take for the pending one, the call returns \<open>(False, None)\<close> in the world that
  round left; and when the timeout has elapsed at the head of a round, the call returns
  \<open>(False, None)\<close> there.
\<close>

theorem C9_polling_result:
  "(fst (PaymentVerifier_verify_payment lib cfg n fa ea th t w) = Inr (ok, x)
      \<longrightarrow> x = (if ok then th else None))
   \<and> (fst (PaymentVerifier_verify_payment lib cfg n fa ea th t w) = Inr (True, th) \<longleftrightarrow>
        (\<exists>h k w1. th = Some h \<and> h \<noteq> []
           \<and> iteration lib cfg n fa ea h t (clock w) k w = Some w1
           \<and> int (clock w1) - int (clock w) < 1000 * t
           \<and> fst (verify_mon_payment lib cfg n h fa ea w1) = Inr (True, None)))
   \<and> (th = Some hash \<and> hash \<noteq> []
        \<and> iteration lib cfg n fa ea hash t (clock w) j w = Some wj
        \<and> int (clock wj) - int (clock w) < 1000 * t
        \<and> verify_mon_payment lib cfg n hash fa ea wj = (Inr (False, Some e), w')
        \<and> \<not> says_pending e
      \<longrightarrow> PaymentVerifier_verify_payment lib cfg n fa ea th t w = (Inr (False, None), w'))
   \<and> (th = Some hash \<and> hash \<noteq> []
        \<and> iteration lib cfg n fa ea hash t (clock w) j w = Some wj
        \<and> \<not> int (clock wj) - int (clock w) < 1000 * t
      \<longrightarrow> PaymentVerifier_verify_payment lib cfg n fa ea th t w = (Inr (False, None), wj))"
proof (cases th)
  case None
  then show ?thesis by (simp add: PaymentVerifier_verify_payment_def)
next
  case (Some h)
  show ?thesis
  proof (cases "h = []")
    case True
    with Some show ?thesis by (auto simp: PaymentVerifier_verify_payment_def)
  next
    case False
    with Some have run: "PaymentVerifier_verify_payment lib cfg n fa ea th t w
                         = poll lib cfg n fa ea h t (clock w) w"
      by (simp add: PaymentVerifier_verify_payment_def)
    have shape: "fst (poll lib cfg n fa ea h t (clock w) w) = Inr (ok, x)
                 \<longrightarrow> x = (if ok then Some h else None)"
      using poll_result_shape by blast
    have "fst (poll lib cfg n fa ea h t (clock w) w) = Inr (True, Some h) \<longleftrightarrow>
          (\<exists>k w1. iteration lib cfg n fa ea h t (clock w) k w = Some w1
             \<and> int (clock w1) - int (clock w) < 1000 * t
             \<and> fst (verify_mon_payment lib cfg n h fa ea w1) = Inr (True, None))"
    proof
      assume "fst (poll lib cfg n fa ea h t (clock w) w) = Inr (True, Some h)"
      then show "\<exists>k w1. iteration lib cfg n fa ea h t (clock w) k w = Some w1
             \<and> int (clock w1) - int (clock w) < 1000 * t
             \<and> fst (verify_mon_payment lib cfg n h fa ea w1) = Inr (True, None)"
        by (rule poll_accept_sound)
    next
      assume "\<exists>k w1. iteration lib cfg n fa ea h t (clock w) k w = Some w1
             \<and> int (clock w1) - int (clock w) < 1000 * t
             \<and> fst (verify_mon_payment lib cfg n h fa ea w1) = Inr (True, None)"
      then obtain k w1 where "iteration lib cfg n fa ea h t (clock w) k w = Some w1"
        "int (clock w1) - int (clock w) < 1000 * t"
        "fst (verify_mon_payment lib cfg n h fa ea w1) = Inr (True, None)"
        by blast
      then show "fst (poll lib cfg n fa ea h t (clock w) w) = Inr (True, Some h)"
        by (rule poll_accept_complete)
    qed
    moreover have "poll lib cfg n fa ea h t (clock w) w = (Inr (False, None), w')"
      if "iteration lib cfg n fa ea h t (clock w) j w = Some wj"
        "int (clock wj) - int (clock w) < 1000 * t"
        "verify_mon_payment lib cfg n h fa ea wj = (Inr (False, Some e), w')"
        "\<not> says_pending e"
      using poll_follows [OF that(1)] poll_rejects [OF that(2,3,4)] by simp
    moreover have "poll lib cfg n fa ea h t (clock w) w = (Inr (False, None), wj)"
      if "iteration lib cfg n fa ea h t (clock w) j w = Some wj"
        "\<not> int (clock wj) - int (clock w) < 1000 * t"
      using poll_follows [OF that(1)] poll_timed_out [OF that(2)] by simp
    ultimately show ?thesis using shape run Some False by (cases ok) auto
  qed
qed

theorem C9_witness:
  "fst (PaymentVerifier_verify_payment lib0 default_config
          (mined_after 3 (Obj (transfer ''0x5'')) (Obj receipt_ok)) payer 5 (Some ''0xabc'') 30 w0)
     = Inr (True, Some ''0xabc'')
   \<and> iteration lib0 default_config (mined_after 3 (Obj (transfer ''0x5'')) (Obj receipt_ok))
       payer 5 ''0xabc'' 30 (clock w0) 1 w0
     = Some \<lparr>clock = 2000,
             requests = [(Eth_getTransactionByHash, ''0xabc''),
                         (Eth_getTransactionReceipt, ''0xabc'')],
             sleeps = [2]\<rparr>
   \<and> PaymentVerifier_verify_payment lib0 default_config
       (steady_node (Obj (transfer ''0x3'')) (Obj receipt_ok)) payer 5 (Some ''0xabc'') 30 w0
     = (Inr (False, None),
        \<lparr>clock = 0,
         requests = [(Eth_getTransactionByHash, ''0xabc''),
                     (Eth_getTransactionReceipt, ''0xabc'')],
         sleeps = []\<rparr>)
   \<and> PaymentVerifier_verify_payment lib0 default_config
       (mined_after 3 (Obj (transfer ''0x5'')) (Obj receipt_ok)) payer 5 (Some ''0xabc'') 2 w0
     = (Inr (False, None),
        \<lparr>clock = 2000,
         requests = [(Eth_getTransactionByHash, ''0xabc''),
                     (Eth_getTransactionReceipt, ''0xabc'')],
         sleeps = [2]\<rparr>)"
proof -
  let ?n = "mined_after 3 (Obj (transfer ''0x5'')) (Obj receipt_ok)"
  let ?s = "steady_node (Obj (transfer ''0x3'')) (Obj receipt_ok)"
  let ?w1 = "\<lparr>clock = 2000,
             requests = [(Eth_getTransactionByHash, ''0xabc''),
                         (Eth_getTransactionReceipt, ''0xabc'')],
             sleeps = [2]\<rparr>"
  let ?w2 = "\<lparr>clock = 0,
             requests = [(Eth_getTransactionByHash, ''0xabc''),
                         (Eth_getTransactionReceipt, ''0xabc'')],
             sleeps = []\<rparr>"
  have hash: "Some ''0xabc'' = Some ''0xabc''" "''0xabc'' \<noteq> []" by simp_all
  have it: "iteration lib0 default_config ?n payer 5 ''0xabc'' 30 (clock w0) 1 w0 = Some ?w1"
    by (simp add: w0_def mined_later_first_attempt says_pending_pending sleep_def
                  mined_after_timing)
  have time: "int (clock ?w1) - int (clock w0) < 1000 * 30"
    by (simp add: w0_def)
  have acc: "fst (verify_mon_payment lib0 default_config ?n ''0xabc'' payer 5 ?w1)
             = Inr (True, None)"
    by (simp add: mined_later_second_attempt)
  have "\<exists>h k w1. Some ''0xabc'' = Some h \<and> h \<noteq> []
           \<and> iteration lib0 default_config ?n payer 5 h 30 (clock w0) k w0 = Some w1
           \<and> int (clock w1) - int (clock w0) < 1000 * 30
           \<and> fst (verify_mon_payment lib0 default_config ?n h payer 5 w1) = Inr (True, None)"
    using it time acc by blast
  with C9_polling_result [of lib0 default_config ?n payer 5 "Some ''0xabc''" 30 w0 True
      "Some ''0xabc''"]
  have accepted:
    "fst (PaymentVerifier_verify_payment lib0 default_config ?n payer 5 (Some ''0xabc'') 30 w0)
     = Inr (True, Some ''0xabc'')"
    by blast
  have it0: "iteration lib0 default_config ?s payer 5 ''0xabc'' 30 (clock w0) 0 w0 = Some w0"
    by simp
  have time0: "int (clock w0) - int (clock w0) < 1000 * 30" by simp
  have rej: "verify_mon_payment lib0 default_config ?s ''0xabc'' payer 5 w0
             = (Inr (False, Some ''Amount too low: expected 5, got 3''), ?w2)"
    by (simp add: steady_transfer_short w0_def)
  from C9_polling_result [of lib0 default_config ?s payer 5 "Some ''0xabc''" 30 w0 True
      "Some ''0xabc''" "''0xabc''" 0 w0 "''Amount too low: expected 5, got 3''" ?w2]
    hash it0 time0 rej says_pending_too_low
  have rejected:
    "PaymentVerifier_verify_payment lib0 default_config ?s payer 5 (Some ''0xabc'') 30 w0
     = (Inr (False, None), ?w2)"
    by blast
  have it2: "iteration lib0 default_config ?n payer 5 ''0xabc'' 2 (clock w0) 1 w0 = Some ?w1"
    by (simp add: w0_def mined_later_first_attempt says_pending_pending sleep_def
                  mined_after_timing)
  have late: "\<not> int (clock ?w1) - int (clock w0) < 1000 * 2"
    by (simp add: w0_def)
  from C9_polling_result [of lib0 default_config ?n payer 5 "Some ''0xabc''" 2 w0 True
      "Some ''0xabc''" "''0xabc''" 1 ?w1 "[]" w0]
    hash it2 late
  have timed_out:
    "PaymentVerifier_verify_payment lib0 default_config ?n payer 5 (Some ''0xabc'') 2 w0
     = (Inr (False, None), ?w1)"
    by blast
  from accepted it rejected timed_out show ?thesis by simp
qed

section \<open>Empty transaction hash\<close>

text \<open>
  C10. If the transaction hash given to \<^verbatim>\<open>PaymentVerifier.verify_payment\<close> is absent
  or the empty string, the call returns \<open>(False, None)\<close> at once: the world is left as it
  was, so no request has been posted, no sleep taken, and the loop not entered.
\<close>

theorem C10_no_hash_returns_at_once:
  assumes "tx_hash = None \<or> tx_hash = Some []"
  shows "PaymentVerifier_verify_payment lib cfg n from_address expected_amount tx_hash timeout w
         = (Inr (False, None), w)"
  using assms by (auto simp: PaymentVerifier_verify_payment_def)

theorem C10_no_hash_witness:
  "PaymentVerifier_verify_payment lib0 default_config (steady_node Null Null) payer 5 (Some []) 30 w0
     = (Inr (False, None), w0)
   \<and> PaymentVerifier_verify_payment lib0 default_config (steady_node Null Null) payer 5 None 30 w0
     = (Inr (False, None), w0)"
proof -
  have some: "Some ([]::string) = None \<or> Some ([]::string) = Some []" by simp
  have none: "(None::string option) = None \<or> (None::string option) = Some []" by simp
  show ?thesis
    using C10_no_hash_returns_at_once [OF some] C10_no_hash_returns_at_once [OF none]
    by simp
qed

end
